theory Spec2Isabelle
  imports Main
begin

section \<open>JavaScript values\<close>

text \<open>
  Data that reaches the program from the wire or from a provider is JSON. A number is
  kept as the decimal text JavaScript prints for it, which identifies the number and is
  all the program ever does with one (it tests truthiness and interpolates it into a
  message). An object is the list of its own properties in enumeration order, with
  distinct keys. The value \<open>undefined\<close> is \<open>None\<close> of \<open>json option\<close>.
\<close>

datatype json =
    JNull
  | JBool bool
  | JNum string
  | JStr string
  | JArr "json list"
  | JObj "(string \<times> json) list"

type_synonym any = "json option"

datatype js_error = Error string | TypeError string | SyntaxError string

fun message :: "js_error \<Rightarrow> string" where
  "message (Error m) = m"
| "message (TypeError m) = m"
| "message (SyntaxError m) = m"

text \<open>Property read \<open>v.k\<close>: a TypeError on \<open>undefined\<close> and \<open>null\<close>, the own property
  of an object, and \<open>undefined\<close> on every other value (none of the property names this
  program reads is defined on a prototype of a JSON value).\<close>

fun js_get :: "any \<Rightarrow> string \<Rightarrow> js_error + any" where
  "js_get None k =
     Inl (TypeError (''Cannot read properties of undefined (reading '' @ [CHR 0x27] @ k @ [CHR 0x27] @ '')''))"
| "js_get (Some JNull) k =
     Inl (TypeError (''Cannot read properties of null (reading '' @ [CHR 0x27] @ k @ [CHR 0x27] @ '')''))"
| "js_get (Some (JObj kvs)) k = Inr (map_of kvs k)"
| "js_get (Some v) k = Inr None"

text \<open>Optional chaining \<open>v?.k\<close>.\<close>

fun js_get_opt :: "any \<Rightarrow> string \<Rightarrow> any" where
  "js_get_opt (Some (JObj kvs)) k = map_of kvs k"
| "js_get_opt v k = None"

text \<open>Truthiness of a value in a condition, \<open>!v\<close> and \<open>v || d\<close>.\<close>

fun truthy :: "any \<Rightarrow> bool" where
  "truthy None = False"
| "truthy (Some JNull) = False"
| "truthy (Some (JBool b)) = b"
| "truthy (Some (JNum s)) = (s \<noteq> ''0'' \<and> s \<noteq> ''NaN'')"
| "truthy (Some (JStr s)) = (s \<noteq> [])"
| "truthy (Some (JArr xs)) = True"
| "truthy (Some (JObj kvs)) = True"

text \<open>The results of a list of evaluations, in order, or the first throw among them.\<close>

fun collect :: "(js_error + 'a) list \<Rightarrow> js_error + 'a list" where
  "collect [] = Inr []"
| "collect (r # rs) =
     (case r of
        Inl e \<Rightarrow> Inl e
      | Inr x \<Rightarrow> (case collect rs of Inl e \<Rightarrow> Inl e | Inr xs \<Rightarrow> Inr (x # xs)))"

text \<open>Interpolation of a value into a template literal (the conversion to a string).
  An array is the join of its elements, \<open>null\<close> elements giving the empty string. An
  object is \<open>[object Object]\<close>, unless it has an own \<open>toString\<close> property: a JSON value
  is not callable, so the inherited method is hidden and the conversion throws.\<close>

fun join_with :: "string \<Rightarrow> string list \<Rightarrow> string" where
  "join_with sep [] = []"
| "join_with sep [x] = x"
| "join_with sep (x # y # ys) = x @ sep @ join_with sep (y # ys)"

fun to_string :: "json \<Rightarrow> js_error + string" where
  "to_string JNull = Inr ''null''"
| "to_string (JBool b) = Inr (if b then ''true'' else ''false'')"
| "to_string (JNum s) = Inr s"
| "to_string (JStr s) = Inr s"
| "to_string (JArr xs) =
     (case collect (map (\<lambda>x. if x = JNull then Inr [] else to_string x) xs) of
        Inl e \<Rightarrow> Inl e
      | Inr ss \<Rightarrow> Inr (join_with '','' ss))"
| "to_string (JObj kvs) =
     (if ''toString'' \<in> set (map fst kvs)
      then Inl (TypeError ''Cannot convert object to primitive value'')
      else Inr ''[object Object]'')"

fun interpolate :: "any \<Rightarrow> js_error + string" where
  "interpolate None = Inr ''undefined''"
| "interpolate (Some v) = to_string v"

text \<open>Definition of an own property (an object spread followed by a property, or
  \<open>Map.set\<close> on the entries of a Map): an existing key keeps its place, a new key goes
  last. Where an object is built from the entries of another, the keys come in that
  object's enumeration order, so the list built is in enumeration order too.\<close>

fun obj_set :: "string \<Rightarrow> 'v \<Rightarrow> (string \<times> 'v) list \<Rightarrow> (string \<times> 'v) list" where
  "obj_set k v [] = [(k, v)]"
| "obj_set k v ((k', v') # kvs) =
     (if k = k' then (k, v) # kvs else (k', v') # obj_set k v kvs)"

text \<open>Assignment \<open>obj[k] = v\<close> on a plain object: as above, except that the name
  \<open>__proto__\<close> is the prototype accessor, so the assignment creates no own property.\<close>

definition obj_assign :: "string \<Rightarrow> 'v \<Rightarrow> (string \<times> 'v) list \<Rightarrow> (string \<times> 'v) list" where
  "obj_assign k v kvs = (if k = ''__proto__'' then kvs else obj_set k v kvs)"

section \<open>The proxy server (server.js)\<close>

text \<open>
  The registry \<open>mcpClients\<close> is a JavaScript Map from provider name to the record
  \<open>{client, tools}\<close>; a Map enumerates in insertion order and \<open>set\<close> on a present key
  replaces the value in place. A tool is the object the provider reported. The client
  handle is represented by the name it was created under.
\<close>

type_synonym tool = "(string \<times> json) list"

record client_info =
  client :: string
  tools :: "tool list"

type_synonym registry = "(string \<times> client_info) list"

text \<open>Frames handed to \<open>ws.send\<close>, before serialization. A field whose value is
  \<open>undefined\<close> is absent from the serialized frame. In \<open>tool_response\<close> the payload is
  the provider's response (the frame carries it as text: itself when it is a string, its
  JSON text otherwise).\<close>

datatype frame =
    tools_list "tool list"
  | tool_response any json
  | error any string

record ws =
  sent :: "frame list"
  closed :: bool

definition ws_send :: "frame \<Rightarrow> ws \<Rightarrow> ws" where
  "ws_send f c = c\<lparr>sent := sent c @ [f]\<rparr>"

text \<open>The outcome of \<open>await client.callTool({name, arguments})\<close>, taken to settle: the
  promise resolves with the provider's response or rejects with an error.\<close>

datatype call_outcome = resolves json | rejects js_error

type_synonym backend = "string \<Rightarrow> any \<Rightarrow> any \<Rightarrow> call_outcome"

text \<open>What one run of a handler did: the socket, and the backend calls it made
  (client handle, tool name, arguments) in order.\<close>

record effects =
  sock :: ws
  invoked :: "(string \<times> any \<times> any) list"

definition all_tools :: "registry \<Rightarrow> tool list" where
  "all_tools reg =
     concat (map (\<lambda>(serverName, info).
        map (\<lambda>t. obj_set ''serverName'' (JStr serverName) t) (tools info)) reg)"

definition mcpClients_get :: "registry \<Rightarrow> any \<Rightarrow> client_info option" where
  "mcpClients_get reg k = (case k of Some (JStr s) \<Rightarrow> map_of reg s | _ \<Rightarrow> None)"

text \<open>The \<open>call_tool\<close> case of the switch; the request is an object here, since its
  \<open>type\<close> was read as a string. The message of the first \<open>log\<close> call interpolates
  \<open>toolName\<close> and then \<open>serverName\<close>; a throw there, like the lookup failure, happens
  before the inner try and goes to the handler's outer catch. The inner try/catch answers
  both outcomes of the call itself.\<close>

definition call_tool :: "backend \<Rightarrow> registry \<Rightarrow> json \<Rightarrow> effects \<Rightarrow> js_error option \<times> effects" where
  "call_tool callTool reg request st =
     (let serverName = js_get_opt (Some request) ''serverName'';
          toolName = js_get_opt (Some request) ''toolName'';
          args = js_get_opt (Some request) ''args'';
          requestId = js_get_opt (Some request) ''requestId''
      in case interpolate toolName of
           Inl e \<Rightarrow> (Some e, st)
         | Inr toolText \<Rightarrow>
             (case interpolate serverName of
                Inl e \<Rightarrow> (Some e, st)
              | Inr serverText \<Rightarrow>
                  (case mcpClients_get reg serverName of
                     None \<Rightarrow> (Some (Error (''MCP server '' @ serverText @ '' not found'')), st)
                   | Some clientInfo \<Rightarrow>
                       (let st1 = st\<lparr>invoked := invoked st @ [(client clientInfo, toolName, args)]\<rparr>
                        in case callTool (client clientInfo) toolName args of
                             resolves toolResponse \<Rightarrow>
                               (None, st1\<lparr>sock := ws_send (tool_response requestId toolResponse)
                                                    (sock st1)\<rparr>)
                           | rejects err \<Rightarrow>
                               (None, st1\<lparr>sock := ws_send
                                  (error requestId (''Tool execution failed: '' @ message err))
                                  (sock st1)\<rparr>)))))"

text \<open>The body of the outer try of \<open>ws.on('message')\<close>: \<open>JSON.parse(message)\<close> (the
  runtime's parser, a parameter), the read of \<open>request.type\<close>, its interpolation into the
  message of the first \<open>log\<close> call, and the switch. \<open>None\<close> is normal completion, \<open>Some e\<close>
  a throw. The calls of \<open>log\<close> write to the console only; what is kept of them is every
  interpolation that can throw: of a value into the message a call is given, and of the
  message into the line \<open>log\<close> prints, which in the \<open>client_log\<close> case is the request's
  own \<open>message\<close>.\<close>

type_synonym json_parse = "string \<Rightarrow> js_error + json"

definition incoming_try ::
  "backend \<Rightarrow> json_parse \<Rightarrow> registry \<Rightarrow> string \<Rightarrow> effects \<Rightarrow> js_error option \<times> effects" where
  "incoming_try callTool JSON_parse reg msg st =
     (case JSON_parse msg of
        Inl e \<Rightarrow> (Some e, st)
      | Inr request \<Rightarrow>
          (case js_get (Some request) ''type'' of
             Inl e \<Rightarrow> (Some e, st)
           | Inr ty \<Rightarrow>
               (case interpolate ty of
                  Inl e \<Rightarrow> (Some e, st)
                | Inr typeText \<Rightarrow>
                    if ty = Some (JStr ''list_tools'') then
                      (None, st\<lparr>sock := ws_send (tools_list (all_tools reg)) (sock st)\<rparr>)
                    else if ty = Some (JStr ''client_log'') then
                      (case interpolate (js_get_opt (Some request) ''message'') of
                         Inl e \<Rightarrow> (Some e, st)
                       | Inr line \<Rightarrow> (None, st))
                    else if ty = Some (JStr ''call_tool'') then call_tool callTool reg request st
                    else (Some (Error (''Unknown request type: '' @ typeText)), st))))"

text \<open>The whole handler: the outer catch turns any throw into an error frame that has
  no \<open>requestId\<close> field.\<close>

definition incoming ::
  "backend \<Rightarrow> json_parse \<Rightarrow> registry \<Rightarrow> string \<Rightarrow> effects \<Rightarrow> effects" where
  "incoming callTool JSON_parse reg msg st =
     (case incoming_try callTool JSON_parse reg msg st of
        (None, st') \<Rightarrow> st'
      | (Some e, st') \<Rightarrow> st'\<lparr>sock := ws_send (error None (message e)) (sock st')\<rparr>)"

text \<open>The connection handler sends the catalog once; the close handler only logs.\<close>

definition connection :: "registry \<Rightarrow> ws \<Rightarrow> ws" where
  "connection reg c = ws_send (tools_list (all_tools reg)) c"

section \<open>Startup (server.js)\<close>

text \<open>\<open>Object.entries(v)\<close> and \<open>Object.keys(v)\<close>: a TypeError on \<open>undefined\<close> and \<open>null\<close>,
  the own properties of an object, the indexed elements of an array or a string, and
  nothing on a number or a boolean.\<close>

function decimal :: "nat \<Rightarrow> string" where
  "decimal n = (if n < 10 then [''0123456789'' ! n] else decimal (n div 10) @ [''0123456789'' ! (n mod 10)])"
  by pat_completeness auto
termination
  by (relation "measure id") auto

fun object_entries :: "any \<Rightarrow> js_error + (string \<times> json) list" where
  "object_entries None = Inl (TypeError ''Cannot convert undefined or null to object'')"
| "object_entries (Some JNull) = Inl (TypeError ''Cannot convert undefined or null to object'')"
| "object_entries (Some (JObj kvs)) = Inr kvs"
| "object_entries (Some (JArr xs)) = Inr (zip (map decimal [0..<length xs]) xs)"
| "object_entries (Some (JStr s)) = Inr (zip (map decimal [0..<length s]) (map (\<lambda>c. JStr [c]) s))"
| "object_entries (Some v) = Inr []"

text \<open>\<open>loadConfig\<close>: the outcome of \<open>fs.readFile(configPath, 'utf8')\<close> and the runtime's
  parser are parameters. The catch replaces any failure by the empty configuration.\<close>

definition loadConfig :: "js_error + string \<Rightarrow> json_parse \<Rightarrow> js_error + json" where
  "loadConfig readFile JSON_parse =
     (case (case readFile of Inl e \<Rightarrow> Inl e | Inr configFile \<Rightarrow> JSON_parse configFile) of
        Inl e \<Rightarrow> Inr (JObj [(''mcpServers'', JObj [])])
      | Inr config \<Rightarrow> Inr config)"

text \<open>What launching a provider and asking it for its tools comes to: \<open>client.connect\<close>
  throws, \<open>client.listTools\<close> throws, or it returns a response, \<open>Some ts\<close> when the
  response and its \<open>tools\<close> are truthy and \<open>None\<close> otherwise. The outcome depends on the
  provider's name and launch parameters.\<close>

datatype provider_outcome =
    connect_fails js_error
  | listTools_fails js_error
  | listTools_returns "tool list option"

type_synonym providers = "string \<Rightarrow> any \<Rightarrow> any \<Rightarrow> any \<Rightarrow> provider_outcome"

text \<open>\<open>initializeMCPClient\<close> returns \<open>null\<close> (\<open>None\<close>) from its catch, leaving the registry as
  it was, and otherwise registers the provider under its name.\<close>

definition or_else :: "any \<Rightarrow> json \<Rightarrow> any" where
  "or_else v d = (if truthy v then v else Some d)"

definition initializeMCPClient ::
  "providers \<Rightarrow> string \<Rightarrow> json \<Rightarrow> registry \<Rightarrow> client_info option \<times> registry" where
  "initializeMCPClient launch name config reg =
     (case js_get (Some config) ''command'' of
        Inl e \<Rightarrow> (None, reg)
      | Inr command \<Rightarrow>
          (case launch name command (or_else (js_get_opt (Some config) ''args'') (JArr []))
                  (js_get_opt (Some config) ''env'') of
             connect_fails e \<Rightarrow> (None, reg)
           | listTools_fails e \<Rightarrow> (None, reg)
           | listTools_returns (Some ts) \<Rightarrow>
               (Some \<lparr>client = name, tools = ts\<rparr>, obj_set name \<lparr>client = name, tools = ts\<rparr> reg)
           | listTools_returns None \<Rightarrow>
               (Some \<lparr>client = name, tools = []\<rparr>, obj_set name \<lparr>client = name, tools = []\<rparr> reg)))"

text \<open>The for loop of \<open>initializeClients\<close> over the configured providers.\<close>

fun initialize_each :: "providers \<Rightarrow> (string \<times> json) list \<Rightarrow> registry \<Rightarrow> registry" where
  "initialize_each launch [] reg = reg"
| "initialize_each launch ((name, serverConfig) # rest) reg =
     initialize_each launch rest (snd (initializeMCPClient launch name serverConfig reg))"

text \<open>\<open>initializeClients\<close>, run once at startup on the empty registry. A throw here is not
  caught by anything: the process ends.\<close>

definition initializeClients ::
  "js_error + string \<Rightarrow> json_parse \<Rightarrow> providers \<Rightarrow> registry \<Rightarrow> js_error + registry" where
  "initializeClients readFile JSON_parse launch reg =
     (case loadConfig readFile JSON_parse of
        Inl e \<Rightarrow> Inl e
      | Inr config \<Rightarrow>
          (case js_get (Some config) ''mcpServers'' of
             Inl e \<Rightarrow> Inl e
           | Inr mcpServers \<Rightarrow>
               (case object_entries mcpServers of
                  Inl e \<Rightarrow> Inl e
                | Inr entries \<Rightarrow> Inr (initialize_each launch entries reg))))"

text \<open>A provider fails to start when the read of its launch command throws, when
  \<open>client.connect\<close> throws or when \<open>client.listTools\<close> throws.\<close>

definition fails_to_start :: "providers \<Rightarrow> string \<Rightarrow> json \<Rightarrow> bool" where
  "fails_to_start launch name config =
     (case js_get (Some config) ''command'' of
        Inl e \<Rightarrow> True
      | Inr command \<Rightarrow>
          (case launch name command (or_else (js_get_opt (Some config) ''args'') (JArr []))
                  (js_get_opt (Some config) ''env'') of
             listTools_returns r \<Rightarrow> False
           | _ \<Rightarrow> True))"

section \<open>The running proxy\<close>

text \<open>
  The proxy from the start of the process: the registry, the sockets of the sessions, the
  backend calls made so far, and, as part of the environment, the names of the provider
  processes that are running. The socket server listens, and its connection handler is
  installed, before \<open>initializeClients\<close> is awaited, so sessions are served while the
  providers are being started: one turn of the startup loop is an event like any other.
  server.js subscribes to no exit or close event of a provider, so a provider's exit runs
  no code of the proxy.
\<close>

datatype event =
    connect nat
  | receive nat string
  | disconnect nat
  | backend_exit string
  | initialize string json

record world =
  mcpClients :: registry
  conns :: "nat \<Rightarrow> ws option"
  calls :: "(string \<times> any \<times> any) list"
  running :: "string list"

definition process_start :: world where
  "process_start = \<lparr>mcpClients = [], conns = Map.empty, calls = [], running = []\<rparr>"

text \<open>A provider's process runs from the moment \<open>client.connect\<close> succeeds.\<close>

definition connects :: "providers \<Rightarrow> string \<Rightarrow> json \<Rightarrow> bool" where
  "connects launch name config =
     (case js_get (Some config) ''command'' of
        Inl e \<Rightarrow> False
      | Inr command \<Rightarrow>
          (case launch name command (or_else (js_get_opt (Some config) ''args'') (JArr []))
                  (js_get_opt (Some config) ''env'') of
             connect_fails e \<Rightarrow> False
           | _ \<Rightarrow> True))"

definition step :: "providers \<Rightarrow> backend \<Rightarrow> json_parse \<Rightarrow> world \<Rightarrow> event \<Rightarrow> world" where
  "step launch callTool JSON_parse w ev =
     (case ev of
        connect s \<Rightarrow>
          w\<lparr>conns := (conns w)(s \<mapsto> connection (mcpClients w) \<lparr>sent = [], closed = False\<rparr>)\<rparr>
      | receive s msg \<Rightarrow>
          (case conns w s of
             None \<Rightarrow> w
           | Some c \<Rightarrow>
               if closed c then w
               else (let st = incoming callTool JSON_parse (mcpClients w) msg \<lparr>sock = c, invoked = []\<rparr>
                     in w\<lparr>conns := (conns w)(s \<mapsto> sock st), calls := calls w @ invoked st\<rparr>))
      | disconnect s \<Rightarrow>
          (case conns w s of
             None \<Rightarrow> w
           | Some c \<Rightarrow> w\<lparr>conns := (conns w)(s \<mapsto> c\<lparr>closed := True\<rparr>)\<rparr>)
      | backend_exit name \<Rightarrow> w\<lparr>running := removeAll name (running w)\<rparr>
      | initialize name serverConfig \<Rightarrow>
          w\<lparr>mcpClients := snd (initializeMCPClient launch name serverConfig (mcpClients w)),
            running := (if connects launch name serverConfig then running w @ [name]
                        else running w)\<rparr>)"

definition run :: "providers \<Rightarrow> backend \<Rightarrow> json_parse \<Rightarrow> world \<Rightarrow> event list \<Rightarrow> world" where
  "run launch callTool JSON_parse w evs = foldl (step launch callTool JSON_parse) w evs"

text \<open>The turns of the startup loop among a sequence of events.\<close>

fun initializations :: "event list \<Rightarrow> (string \<times> json) list" where
  "initializations [] = []"
| "initializations (initialize name serverConfig # evs) = (name, serverConfig) # initializations evs"
| "initializations (ev # evs) = initializations evs"

section \<open>Schema normalization (utils/toolConversion)\<close>

text \<open>
  The front end's \<open>Tool\<close> interface; \<open>description\<close> is \<open>None\<close> when the provider sent
  none, which the code guards against. The values of \<open>inputSchema.properties\<close> are typed
  \<open>any\<close>.
\<close>

record schema =
  schema_uri :: "string option"
  schema_type :: "string option"
  properties :: "(string \<times> json) list option"
  required :: "string list option"
  additionalProperties :: "bool option"

record Tool =
  name :: string
  description :: "string option"
  serverName :: string
  inputSchema :: "schema option"

datatype SchemaType = STRING | NUMBER | INTEGER | BOOLEAN | ARRAY | OBJECT

text \<open>The objects the conversion builds. A field that the code does not set is \<open>None\<close>.\<close>

record nested_decl =
  nested_type :: SchemaType
  nested_description :: any

record items_decl =
  items_type :: SchemaType
  items_properties :: "(string \<times> nested_decl) list option"
  items_required :: any

record property_decl =
  property_type :: SchemaType
  property_items :: "items_decl option"
  property_description :: any

record parameters_decl =
  parameters_type :: SchemaType
  parameters_properties :: "(string \<times> property_decl) list"
  parameters_required :: "string list"

record FunctionDeclaration =
  decl_name :: string
  decl_description :: any
  decl_parameters :: parameters_decl

text \<open>The console, the only ambient state the conversion touches: one entry per call of
  \<open>console.log\<close>, holding the values it was given.\<close>

datatype console_entry =
    log_converting_tool string "schema option"
  | log_converting_property string json
  | log_converted_result string FunctionDeclaration
  | log_skipping_no_properties string
  | log_skipping_server string string
  | log_selected_tools "(string \<times> string \<times> schema option) list"
  | log_converting_from string string
  | log_converted_to string FunctionDeclaration

type_synonym console = "console_entry list"

text \<open>\<open>desc?.replace(/['"`]/g, '') || ''\<close>: a TypeError on a value that is neither nullish
  nor a string (the message is the engine's wording for the call).\<close>

fun cleanDescription :: "any \<Rightarrow> js_error + string" where
  "cleanDescription None = Inr []"
| "cleanDescription (Some JNull) = Inr []"
| "cleanDescription (Some (JStr desc)) =
     Inr (filter (\<lambda>c. c \<noteq> CHR 0x27 \<and> c \<noteq> CHR 0x22 \<and> c \<noteq> CHR 0x60) desc)"
| "cleanDescription (Some v) = Inl (TypeError ''desc?.replace is not a function'')"

text \<open>The two conditional chains on a type name: the one for the items of an array,
  which ends in \<open>STRING\<close>, and the one for a field or a nested field, which ends in
  \<open>OBJECT\<close>.\<close>

definition items_schema_type :: "any \<Rightarrow> SchemaType" where
  "items_schema_type t =
     (if t = Some (JStr ''string'') then STRING
      else if t = Some (JStr ''number'') then NUMBER
      else if t = Some (JStr ''boolean'') then BOOLEAN
      else if t = Some (JStr ''object'') then OBJECT
      else STRING)"

definition field_schema_type :: "any \<Rightarrow> SchemaType" where
  "field_schema_type t =
     (if t = Some (JStr ''string'') then STRING
      else if t = Some (JStr ''number'') then NUMBER
      else if t = Some (JStr ''boolean'') then BOOLEAN
      else OBJECT)"

text \<open>The reduce over the nested fields of array items.\<close>

fun convert_nested ::
  "(string \<times> json) list \<Rightarrow> (string \<times> nested_decl) list \<Rightarrow> js_error + (string \<times> nested_decl) list" where
  "convert_nested [] acc = Inr acc"
| "convert_nested ((subKey, subProp) # rest) acc =
     (case js_get (Some subProp) ''type'' of
        Inl e \<Rightarrow> Inl e
      | Inr ty \<Rightarrow>
          (case cleanDescription (js_get_opt (Some subProp) ''description'') of
             Inl e \<Rightarrow> Inl e
           | Inr d \<Rightarrow>
               convert_nested rest
                 (obj_assign subKey \<lparr>nested_type = field_schema_type ty,
                                  nested_description = Some (JStr d)\<rparr> acc)))"

text \<open>What the forEach callback assigns to \<open>convertedProperties[key]\<close>.\<close>

definition convert_property :: "json \<Rightarrow> js_error + property_decl" where
  "convert_property prop =
     (case js_get (Some prop) ''type'' of
        Inl e \<Rightarrow> Inl e
      | Inr ty \<Rightarrow>
          if ty = Some (JStr ''array'') then
            (let items = js_get_opt (Some prop) ''items'' in
             case cleanDescription (js_get_opt (Some prop) ''description'') of
               Inl e \<Rightarrow> Inl e
             | Inr d \<Rightarrow>
                 if truthy (js_get_opt items ''properties'') then
                   (case object_entries (js_get_opt items ''properties'') of
                      Inl e \<Rightarrow> Inl e
                    | Inr entries \<Rightarrow>
                        (case convert_nested entries [] of
                           Inl e \<Rightarrow> Inl e
                         | Inr nested \<Rightarrow>
                             Inr \<lparr>property_type = ARRAY,
                                  property_items = Some
                                    \<lparr>items_type = items_schema_type (js_get_opt items ''type''),
                                     items_properties = Some nested,
                                     items_required = or_else (js_get_opt items ''required'') (JArr [])\<rparr>,
                                  property_description = Some (JStr d)\<rparr>))
                 else
                   Inr \<lparr>property_type = ARRAY,
                        property_items = Some
                          \<lparr>items_type = items_schema_type (js_get_opt items ''type''),
                           items_properties = None, items_required = None\<rparr>,
                        property_description = Some (JStr d)\<rparr>)
          else
            (case cleanDescription (js_get_opt (Some prop) ''description'') of
               Inl e \<Rightarrow> Inl e
             | Inr d \<Rightarrow>
                 Inr \<lparr>property_type = field_schema_type ty, property_items = None,
                      property_description = Some (JStr d)\<rparr>))"

text \<open>The forEach over \<open>Object.entries(tool.inputSchema.properties)\<close>, each step logging
  the property before converting it.\<close>

fun convert_properties ::
  "(string \<times> json) list \<Rightarrow> (string \<times> property_decl) list \<Rightarrow> console \<Rightarrow>
     (js_error + (string \<times> property_decl) list) \<times> console" where
  "convert_properties [] convertedProperties con = (Inr convertedProperties, con)"
| "convert_properties ((key, prop) # rest) convertedProperties con =
     (case convert_property prop of
        Inl e \<Rightarrow> (Inl e, con @ [log_converting_property key prop])
      | Inr p \<Rightarrow>
          convert_properties rest (obj_assign key p convertedProperties)
            (con @ [log_converting_property key prop]))"

definition schema_properties :: "Tool \<Rightarrow> (string \<times> json) list option" where
  "schema_properties tool = (case inputSchema tool of None \<Rightarrow> None | Some s \<Rightarrow> properties s)"

definition schema_required :: "Tool \<Rightarrow> string list" where
  "schema_required tool =
     (case inputSchema tool of
        None \<Rightarrow> []
      | Some s \<Rightarrow> (case required s of None \<Rightarrow> [] | Some r \<Rightarrow> r))"

definition convertToolToFunctionDeclaration ::
  "Tool \<Rightarrow> console \<Rightarrow> (js_error + FunctionDeclaration) \<times> console" where
  "convertToolToFunctionDeclaration tool con =
     (let con1 = con @ [log_converting_tool (name tool) (inputSchema tool)] in
      case schema_properties tool of
        None \<Rightarrow>
          (case cleanDescription (map_option JStr (description tool)) of
             Inl e \<Rightarrow> (Inl e, con1)
           | Inr d \<Rightarrow>
               (Inr \<lparr>decl_name = name tool, decl_description = Some (JStr d),
                     decl_parameters = \<lparr>parameters_type = OBJECT, parameters_properties = [],
                                          parameters_required = []\<rparr>\<rparr>, con1))
      | Some props \<Rightarrow>
          (case convert_properties props [] con1 of
             (Inl e, con2) \<Rightarrow> (Inl e, con2)
           | (Inr convertedProperties, con2) \<Rightarrow>
               (case cleanDescription (map_option JStr (description tool)) of
                  Inl e \<Rightarrow> (Inl e, con2)
                | Inr d \<Rightarrow>
                    (let result = \<lparr>decl_name = name tool, decl_description = Some (JStr d),
                                   decl_parameters =
                                     \<lparr>parameters_type = OBJECT,
                                      parameters_properties = convertedProperties,
                                      parameters_required = schema_required tool\<rparr>\<rparr>
                     in (Inr result, con2 @ [log_converted_result (name tool) result])))))"

text \<open>\<open>filterAndConvertTools\<close>: the filter with its two exclusions, the log of the selected
  tools, and the map that converts them; a throw in a conversion ends the map.\<close>

fun filter_valid :: "Tool list \<Rightarrow> console \<Rightarrow> Tool list \<times> console" where
  "filter_valid [] con = ([], con)"
| "filter_valid (tool # rest) con =
     (if schema_properties tool = None then
        filter_valid rest (con @ [log_skipping_no_properties (name tool)])
      else if serverName tool \<in> set [''filesystem'', ''docker-mcp''] then
        filter_valid rest (con @ [log_skipping_server (name tool) (serverName tool)])
      else (case filter_valid rest con of (valid, con') \<Rightarrow> (tool # valid, con')))"

fun convert_each :: "Tool list \<Rightarrow> console \<Rightarrow> (js_error + FunctionDeclaration list) \<times> console" where
  "convert_each [] con = (Inr [], con)"
| "convert_each (tool # rest) con =
     (case convertToolToFunctionDeclaration tool
             (con @ [log_converting_from (name tool) (serverName tool)]) of
        (Inl e, con1) \<Rightarrow> (Inl e, con1)
      | (Inr declaration, con1) \<Rightarrow>
          (case convert_each rest (con1 @ [log_converted_to (name tool) declaration]) of
             (Inl e, con2) \<Rightarrow> (Inl e, con2)
           | (Inr declarations, con2) \<Rightarrow> (Inr (declaration # declarations), con2)))"

definition filterAndConvertTools ::
  "Tool list \<Rightarrow> console \<Rightarrow> (js_error + FunctionDeclaration list) \<times> console" where
  "filterAndConvertTools tls con =
     (case filter_valid tls con of
        (validTools, con1) \<Rightarrow>
          convert_each validTools
            (con1 @ [log_selected_tools
               (map (\<lambda>t. (name t, serverName t, inputSchema t)) validTools)]))"

text \<open>
  The component file's own copy of the conversion. It differs in the descriptions only:
  a field's description is \<open>prop.description || ''\<close>, whatever value that is, and the
  tool's description is copied as it is once the schema has properties.
\<close>

fun convert_nested_Altair ::
  "(string \<times> json) list \<Rightarrow> (string \<times> nested_decl) list \<Rightarrow> js_error + (string \<times> nested_decl) list" where
  "convert_nested_Altair [] acc = Inr acc"
| "convert_nested_Altair ((subKey, subProp) # rest) acc =
     (case js_get (Some subProp) ''type'' of
        Inl e \<Rightarrow> Inl e
      | Inr ty \<Rightarrow>
          convert_nested_Altair rest
            (obj_assign subKey
               \<lparr>nested_type = field_schema_type ty,
                nested_description = or_else (js_get_opt (Some subProp) ''description'') (JStr [])\<rparr>
               acc))"

definition convert_property_Altair :: "json \<Rightarrow> js_error + property_decl" where
  "convert_property_Altair prop =
     (case js_get (Some prop) ''type'' of
        Inl e \<Rightarrow> Inl e
      | Inr ty \<Rightarrow>
          if ty = Some (JStr ''array'') then
            (let items = js_get_opt (Some prop) ''items'' in
             if truthy (js_get_opt items ''properties'') then
               (case object_entries (js_get_opt items ''properties'') of
                  Inl e \<Rightarrow> Inl e
                | Inr entries \<Rightarrow>
                    (case convert_nested_Altair entries [] of
                       Inl e \<Rightarrow> Inl e
                     | Inr nested \<Rightarrow>
                         Inr \<lparr>property_type = ARRAY,
                              property_items = Some
                                \<lparr>items_type = items_schema_type (js_get_opt items ''type''),
                                 items_properties = Some nested,
                                 items_required = or_else (js_get_opt items ''required'') (JArr [])\<rparr>,
                              property_description =
                                or_else (js_get_opt (Some prop) ''description'') (JStr [])\<rparr>))
             else
               Inr \<lparr>property_type = ARRAY,
                    property_items = Some
                      \<lparr>items_type = items_schema_type (js_get_opt items ''type''),
                       items_properties = None, items_required = None\<rparr>,
                    property_description =
                      or_else (js_get_opt (Some prop) ''description'') (JStr [])\<rparr>)
          else
            Inr \<lparr>property_type = field_schema_type ty, property_items = None,
                 property_description =
                   or_else (js_get_opt (Some prop) ''description'') (JStr [])\<rparr>)"

fun convert_properties_Altair ::
  "(string \<times> json) list \<Rightarrow> (string \<times> property_decl) list \<Rightarrow> console \<Rightarrow>
     (js_error + (string \<times> property_decl) list) \<times> console" where
  "convert_properties_Altair [] convertedProperties con = (Inr convertedProperties, con)"
| "convert_properties_Altair ((key, prop) # rest) convertedProperties con =
     (case convert_property_Altair prop of
        Inl e \<Rightarrow> (Inl e, con @ [log_converting_property key prop])
      | Inr p \<Rightarrow>
          convert_properties_Altair rest (obj_assign key p convertedProperties)
            (con @ [log_converting_property key prop]))"

definition convertToolToFunctionDeclaration_Altair ::
  "Tool \<Rightarrow> console \<Rightarrow> (js_error + FunctionDeclaration) \<times> console" where
  "convertToolToFunctionDeclaration_Altair tool con =
     (let con1 = con @ [log_converting_tool (name tool) (inputSchema tool)] in
      case schema_properties tool of
        None \<Rightarrow>
          (Inr \<lparr>decl_name = name tool,
                decl_description = or_else (map_option JStr (description tool)) (JStr []),
                decl_parameters = \<lparr>parameters_type = OBJECT, parameters_properties = [],
                                     parameters_required = []\<rparr>\<rparr>, con1)
      | Some props \<Rightarrow>
          (case convert_properties_Altair props [] con1 of
             (Inl e, con2) \<Rightarrow> (Inl e, con2)
           | (Inr convertedProperties, con2) \<Rightarrow>
               (let result = \<lparr>decl_name = name tool,
                              decl_description = map_option JStr (description tool),
                              decl_parameters =
                                \<lparr>parameters_type = OBJECT,
                                 parameters_properties = convertedProperties,
                                 parameters_required = schema_required tool\<rparr>\<rparr>
                in (Inr result, con2 @ [log_converted_result (name tool) result]))))"

section \<open>Vocabulary of the properties of the conversion\<close>

text \<open>The tools that \<open>filterAndConvertTools\<close> is said to keep.\<close>

definition kept :: "Tool \<Rightarrow> bool" where
  "kept tool = (schema_properties tool \<noteq> None \<and> serverName tool \<noteq> ''filesystem''
                \<and> serverName tool \<noteq> ''docker-mcp'')"

text \<open>A field description as the interfaces declare it: absent, null or a string. A
  well-formed field is an object (anything but \<open>null\<close>) with such a description, whose
  nested item fields, when it is an array with some, are well-formed in the same sense.\<close>

fun describable :: "any \<Rightarrow> bool" where
  "describable None = True"
| "describable (Some JNull) = True"
| "describable (Some (JStr s)) = True"
| "describable (Some v) = False"

definition well_formed_field :: "json \<Rightarrow> bool" where
  "well_formed_field p = (p \<noteq> JNull \<and> describable (js_get_opt (Some p) ''description''))"

definition well_formed_property :: "json \<Rightarrow> bool" where
  "well_formed_property prop =
     (well_formed_field prop \<and>
      (case object_entries (js_get_opt (js_get_opt (Some prop) ''items'') ''properties'') of
         Inl e \<Rightarrow> True
       | Inr entries \<Rightarrow> list_all (\<lambda>e. well_formed_field (snd e)) entries))"

section \<open>The front end's connection to the proxy (lib/mcp-client-manager)\<close>

text \<open>
  The state of \<open>MCPWebSocketClient\<close>. \<open>messageHandlers\<close> maps a request id to the
  \<open>resolve\<close> function of the promise that \<open>callTool\<close> returned; promises are numbered in
  the order of their creation, and \<open>resolved\<close> lists the calls of \<open>resolve\<close> functions
  made so far. \<open>callTool\<close> never stores a \<open>reject\<close> function. The update callback is
  known by a number, and \<open>callback_calls\<close> lists its invocations.
\<close>

record client_state =
  connected :: bool
  messageQueue :: "json list"
  messageHandlers :: "string \<Rightarrow> nat option"
  toolsUpdateCallback :: "nat option"
  ws_sent :: "json list"
  next_promise :: nat
  resolved :: "(nat \<times> any) list"
  callback_calls :: "(nat \<times> any) list"
  console_errors :: "any list"

definition client_init :: client_state where
  "client_init = \<lparr>connected = False, messageQueue = [], messageHandlers = Map.empty,
     toolsUpdateCallback = None, ws_sent = [], next_promise = 0, resolved = [],
     callback_calls = [], console_errors = []\<rparr>"

text \<open>The loop of \<open>onopen\<close>: shift each queued message and send it if it is truthy.\<close>

fun drain :: "json list \<Rightarrow> json list \<Rightarrow> json list" where
  "drain [] out = out"
| "drain (msg # queue) out = drain queue (if truthy (Some msg) then out @ [msg] else out)"

definition onopen :: "client_state \<Rightarrow> client_state" where
  "onopen st = st\<lparr>connected := True, ws_sent := drain (messageQueue st) (ws_sent st),
                  messageQueue := []\<rparr>"

definition onclose :: "client_state \<Rightarrow> client_state" where
  "onclose st = st\<lparr>connected := False\<rparr>"

definition sendOrQueue :: "json \<Rightarrow> client_state \<Rightarrow> client_state" where
  "sendOrQueue msg st =
     (if connected st then st\<lparr>ws_sent := ws_sent st @ [msg]\<rparr>
      else st\<lparr>messageQueue := messageQueue st @ [msg]\<rparr>)"

text \<open>A lookup in \<open>messageHandlers\<close> with a value off the wire finds an entry only for a
  string.\<close>

definition handler_key :: "any \<Rightarrow> string option" where
  "handler_key v = (case v of Some (JStr s) \<Rightarrow> Some s | _ \<Rightarrow> None)"

text \<open>\<open>ws.onmessage\<close>. A throw (of the parser, or of the read of \<open>message.type\<close>) is not
  caught by the handler. The \<open>error\<close> case only writes to the console.\<close>

definition onmessage :: "json_parse \<Rightarrow> string \<Rightarrow> client_state \<Rightarrow> js_error option \<times> client_state" where
  "onmessage JSON_parse data st =
     (case JSON_parse data of
        Inl e \<Rightarrow> (Some e, st)
      | Inr msg \<Rightarrow>
          (case js_get (Some msg) ''type'' of
             Inl e \<Rightarrow> (Some e, st)
           | Inr ty \<Rightarrow>
               if ty = Some (JStr ''tools_list'') then
                 (case toolsUpdateCallback st of
                    None \<Rightarrow> (None, st)
                  | Some cb \<Rightarrow>
                      (None, st\<lparr>callback_calls := callback_calls st @
                                  [(cb, js_get_opt (Some msg) ''tools'')]\<rparr>))
               else if ty = Some (JStr ''tool_response'') then
                 (case handler_key (js_get_opt (Some msg) ''requestId'') of
                    None \<Rightarrow> (None, st)
                  | Some rid \<Rightarrow>
                      (case messageHandlers st rid of
                         None \<Rightarrow> (None, st)
                       | Some handler \<Rightarrow>
                           (None, st\<lparr>resolved := resolved st @
                                       [(handler, js_get_opt (Some msg) ''response'')],
                                     messageHandlers := (messageHandlers st)(rid := None)\<rparr>)))
               else if ty = Some (JStr ''error'') then
                 (None, st\<lparr>console_errors := console_errors st @
                             [js_get_opt (Some msg) ''error'']\<rparr>)
               else (None, st)))"

definition onToolsUpdate :: "nat \<Rightarrow> client_state \<Rightarrow> client_state" where
  "onToolsUpdate callback st =
     sendOrQueue (JObj [(''type'', JStr ''list_tools'')]) (st\<lparr>toolsUpdateCallback := Some callback\<rparr>)"

text \<open>\<open>callTool\<close>: the request id is the runtime's random string, a parameter. The result
  is the new promise and the new state.\<close>

definition call_message :: "string \<Rightarrow> string \<Rightarrow> string \<Rightarrow> any \<Rightarrow> json" where
  "call_message requestId srv toolName args =
     JObj ([(''type'', JStr ''call_tool''), (''requestId'', JStr requestId),
            (''serverName'', JStr srv), (''toolName'', JStr toolName)]
           @ (case args of None \<Rightarrow> [] | Some a \<Rightarrow> [(''args'', a)]))"

definition wsClient_callTool :: "string \<Rightarrow> string \<Rightarrow> string \<Rightarrow> any \<Rightarrow> client_state \<Rightarrow> nat \<times> client_state" where
  "wsClient_callTool requestId srv toolName args st =
     (next_promise st,
      sendOrQueue (call_message requestId srv toolName args)
        (st\<lparr>next_promise := Suc (next_promise st),
            messageHandlers := (messageHandlers st)(requestId \<mapsto> next_promise st)\<rparr>))"

text \<open>What can happen to the client, and a run of such events.\<close>

datatype client_event =
    ev_open
  | ev_message string
  | ev_close
  | ev_error
  | ev_onToolsUpdate nat
  | ev_callTool string string string any

definition client_step :: "json_parse \<Rightarrow> client_state \<Rightarrow> client_event \<Rightarrow> client_state" where
  "client_step JSON_parse st ev =
     (case ev of
        ev_open \<Rightarrow> onopen st
      | ev_message data \<Rightarrow> snd (onmessage JSON_parse data st)
      | ev_close \<Rightarrow> onclose st
      | ev_error \<Rightarrow> st
      | ev_onToolsUpdate cb \<Rightarrow> onToolsUpdate cb st
      | ev_callTool requestId srv toolName args \<Rightarrow> snd (wsClient_callTool requestId srv toolName args st))"

definition client_run :: "json_parse \<Rightarrow> client_state \<Rightarrow> client_event list \<Rightarrow> client_state" where
  "client_run JSON_parse st evs = foldl (client_step JSON_parse) st evs"

text \<open>An event concerns the request id \<open>rid\<close> when it is a \<open>tool_response\<close> message for
  \<open>rid\<close> or another call that draws the same id.\<close>

definition concerns :: "json_parse \<Rightarrow> string \<Rightarrow> client_event \<Rightarrow> bool" where
  "concerns JSON_parse rid ev =
     (case ev of
        ev_message data \<Rightarrow>
          (case JSON_parse data of
             Inl e \<Rightarrow> False
           | Inr msg \<Rightarrow> js_get_opt (Some msg) ''type'' = Some (JStr ''tool_response'')
                        \<and> js_get_opt (Some msg) ''requestId'' = Some (JStr rid))
      | ev_callTool requestId srv toolName args \<Rightarrow> requestId = rid
      | _ \<Rightarrow> False)"

text \<open>Invariants of the client: handlers and resolutions refer to promises already
  created; and a request \<open>rid\<close> is pending on promise \<open>p\<close>.\<close>

definition handlers_known :: "client_state \<Rightarrow> bool" where
  "handlers_known st =
     ((\<forall>k h. messageHandlers st k = Some h \<longrightarrow> h < next_promise st)
      \<and> (\<forall>q \<in> fst ` set (resolved st). q < next_promise st))"

definition pending :: "string \<Rightarrow> nat \<Rightarrow> client_state \<Rightarrow> bool" where
  "pending rid p st =
     (messageHandlers st rid = Some p
      \<and> (\<forall>k. messageHandlers st k = Some p \<longrightarrow> k = rid)
      \<and> p \<notin> fst ` set (resolved st)
      \<and> handlers_known st)"

section \<open>Concrete inputs\<close>


definition ex_unknown :: json where
  "ex_unknown = JObj [(''type'', JStr ''call_tool''), (''serverName'', JStr ''nope''),
     (''toolName'', JStr ''read_file''), (''args'', JObj []), (''requestId'', JStr ''r1'')]"

definition ex_parse :: json_parse where
  "ex_parse msg = (if msg = ''{\"type\":\"list_tools\"}'' then Inr (JObj [(''type'', JStr ''list_tools'')])
                   else Inl (SyntaxError ''Unexpected token''))"

definition ex_list_tools :: json where
  "ex_list_tools = JObj [(''type'', JStr ''list_tools'')]"

definition ex_entries :: "(string \<times> json) list" where
  "ex_entries = [(''a'', JObj [(''command'', JStr ''node'')]),
                 (''b'', JObj [(''command'', JStr ''python'')])]"

definition ex_launch :: providers where
  "ex_launch pname command args env =
     (if pname = ''a'' then connect_fails (Error ''spawn node ENOENT'')
      else listTools_returns (Some [ [(''name'', JStr ''read_file'')] ]))"

definition ex_tool :: Tool where
  "ex_tool = \<lparr>name = ''search'', description = Some ''Search the \"web\"'', serverName = ''web'',
     inputSchema = Some \<lparr>schema_uri = None, schema_type = Some ''object'',
       properties = Some [(''query'', JObj [(''type'', JStr ''string'')]),
                          (''tags'', JObj [(''type'', JStr ''array'')])],
       required = Some [''query''], additionalProperties = None\<rparr>\<rparr>"

definition ex_tool_numeric_description :: Tool where
  "ex_tool_numeric_description = \<lparr>name = ''search'', description = Some ''Search'',
     serverName = ''web'',
     inputSchema = Some \<lparr>schema_uri = None, schema_type = Some ''object'',
       properties = Some [(''tags'', JObj [(''type'', JStr ''array''),
                                           (''description'', JNum ''5'')])],
       required = None, additionalProperties = None\<rparr>\<rparr>"

definition ex_client_parse :: json_parse where
  "ex_client_parse data =
     (if data = ''{\"type\":\"error\",\"requestId\":\"r1\",\"error\":\"Tool execution failed: boom\"}''
      then Inr (JObj [(''type'', JStr ''error''), (''requestId'', JStr ''r1''),
                      (''error'', JStr ''Tool execution failed: boom'')])
      else if data = ''{\"type\":\"tools_list\",\"tools\":[]}''
      then Inr (JObj [(''type'', JStr ''tools_list''), (''tools'', JArr [])])
      else Inl (SyntaxError ''Unexpected token''))"

section \<open>Properties of the request handler\<close>

text \<open>The request kinds the switch recognizes.\<close>

definition recognized :: "any \<Rightarrow> bool" where
  "recognized ty = (ty = Some (JStr ''list_tools'') \<or> ty = Some (JStr ''client_log'')
                   \<or> ty = Some (JStr ''call_tool''))"

text \<open>
  Claim C7. A parsed request whose \<open>type\<close> is none of \<open>list_tools\<close>, \<open>client_log\<close>,
  \<open>call_tool\<close> makes the handler send exactly one frame, an error frame without
  \<open>requestId\<close> whose message is the text \<open>Unknown request type: \<close> followed by the type or,
  when the type cannot be converted to a string, the message of that TypeError; it calls
  no backend and leaves the connection's closed flag as it was.
\<close>

theorem unknown_request_type_error_frame:
  assumes "JSON_parse msg = Inr request"
    and "js_get (Some request) ''type'' = Inr ty"
    and "\<not> recognized ty"
  shows "incoming callTool JSON_parse reg msg st =
           st\<lparr>sock := (sock st)\<lparr>sent := sent (sock st) @
              [error None (case interpolate ty of
                             Inl e \<Rightarrow> message e
                           | Inr typeText \<Rightarrow> ''Unknown request type: '' @ typeText)]\<rparr>\<rparr>
         \<and> closed (sock (incoming callTool JSON_parse reg msg st)) = closed (sock st)
         \<and> invoked (incoming callTool JSON_parse reg msg st) = invoked st"
  using assms
  by (cases "interpolate ty")
     (simp_all add: incoming_def incoming_try_def recognized_def ws_send_def)

theorem unknown_request_type_error_frame_witness:
  "incoming (\<lambda>c n a. resolves JNull) (\<lambda>m. Inr (JObj [(''type'', JStr ''tools_list'')])) []
      ''{\"type\":\"tools_list\"}'' \<lparr>sock = \<lparr>sent = [], closed = False\<rparr>, invoked = []\<rparr>
   = \<lparr>sock = \<lparr>sent = [error None ''Unknown request type: tools_list''], closed = False\<rparr>,
      invoked = []\<rparr>"
  using unknown_request_type_error_frame
    [of "\<lambda>m. Inr (JObj [(''type'', JStr ''tools_list'')])" "''{\"type\":\"tools_list\"}''"
        "JObj [(''type'', JStr ''tools_list'')]" "Some (JStr ''tools_list'')"
        "\<lambda>c n a. resolves JNull" "[]" "\<lparr>sock = \<lparr>sent = [], closed = False\<rparr>, invoked = []\<rparr>"]
  by (simp add: recognized_def)

text \<open>A \<open>call_tool\<close> request whose \<open>serverName\<close> is a key of the registry and whose
  \<open>toolName\<close> converts to a string makes the handler call that backend once and send
  exactly one frame, which carries the request's \<open>requestId\<close>: a \<open>tool_response\<close> frame with
  the provider's response when the call resolves, an \<open>error\<close> frame with
  \<open>Tool execution failed: \<close> and the provider's message when it rejects.\<close>

lemma registered_call_answered_with_requestId:
  assumes "JSON_parse msg = Inr request"
    and "js_get (Some request) ''type'' = Inr (Some (JStr ''call_tool''))"
    and "interpolate (js_get_opt (Some request) ''toolName'') = Inr toolText"
    and "mcpClients_get reg (js_get_opt (Some request) ''serverName'') = Some clientInfo"
  shows "incoming callTool JSON_parse reg msg st =
           st\<lparr>invoked := invoked st @
                 [(client clientInfo, js_get_opt (Some request) ''toolName'',
                   js_get_opt (Some request) ''args'')],
              sock := (sock st)\<lparr>sent := sent (sock st) @
                 [case callTool (client clientInfo) (js_get_opt (Some request) ''toolName'')
                         (js_get_opt (Some request) ''args'') of
                    resolves toolResponse \<Rightarrow>
                      tool_response (js_get_opt (Some request) ''requestId'') toolResponse
                  | rejects err \<Rightarrow>
                      error (js_get_opt (Some request) ''requestId'')
                        (''Tool execution failed: '' @ message err)]\<rparr>\<rparr>"
proof -
  from assms(4) obtain s where "js_get_opt (Some request) ''serverName'' = Some (JStr s)"
    by (auto simp: mcpClients_get_def split: option.splits json.splits)
  then have "interpolate (js_get_opt (Some request) ''serverName'') = Inr s" by simp
  with assms show ?thesis
    by (simp add: incoming_def incoming_try_def call_tool_def ws_send_def Let_def
             split: call_outcome.splits)
qed


text \<open>A \<open>call_tool\<close> request whose \<open>serverName\<close> is not a key of the registry calls no
  backend and is answered from the outer catch, whose frame names no \<open>requestId\<close>.\<close>

lemma unknown_server_throws:
  assumes "JSON_parse msg = Inr request"
    and "js_get (Some request) ''type'' = Inr (Some (JStr ''call_tool''))"
    and "interpolate (js_get_opt (Some request) ''toolName'') = Inr toolText"
    and "interpolate (js_get_opt (Some request) ''serverName'') = Inr serverText"
    and "mcpClients_get reg (js_get_opt (Some request) ''serverName'') = None"
  shows "incoming callTool JSON_parse reg msg st =
           st\<lparr>sock := (sock st)\<lparr>sent := sent (sock st) @
              [error None (''MCP server '' @ serverText @ '' not found'')]\<rparr>\<rparr>"
  using assms
  by (simp add: incoming_def incoming_try_def call_tool_def ws_send_def Let_def)

text \<open>
  Claim C1. The request \<open>{type: call_tool, serverName: nope, toolName: read_file, args: {},
  requestId: r1}\<close> against a registry that holds only \<open>a\<close>: no backend is called and one
  error frame is sent, but the frame does not carry the submitted \<open>requestId\<close> \<open>r1\<close>, unlike
  the error frame of a failed call.
\<close>

theorem unknown_server_frame_has_no_requestId:
  "incoming (\<lambda>c n a. resolves JNull) (\<lambda>m. Inr ex_unknown)
      [(''a'', \<lparr>client = ''a'', tools = []\<rparr>)] ''m''
      \<lparr>sock = \<lparr>sent = [], closed = False\<rparr>, invoked = []\<rparr>
   = \<lparr>sock = \<lparr>sent = [error None ''MCP server nope not found''], closed = False\<rparr>,
      invoked = []\<rparr>"
  by (simp add: incoming_def incoming_try_def call_tool_def ws_send_def Let_def
        ex_unknown_def mcpClients_get_def)

section \<open>Properties of startup\<close>

lemma failed_provider_not_registered:
  "fails_to_start launch pname config \<Longrightarrow> snd (initializeMCPClient launch pname config reg) = reg"
  by (auto simp: fails_to_start_def initializeMCPClient_def
           split: sum.splits provider_outcome.splits option.splits)

lemma initialize_each_skip_failed:
  assumes "\<forall>(n, c) \<in> set entries. n = pname \<longrightarrow> fails_to_start launch n c"
  shows "initialize_each launch entries reg =
         initialize_each launch (filter (\<lambda>e. fst e \<noteq> pname) entries) reg"
  using assms
  by (induction entries arbitrary: reg) (auto simp: failed_provider_not_registered)

lemma fst_set_obj_set: "fst ` set (obj_set k v kvs) = insert k (fst ` set kvs)"
proof (induction kvs)
  case Nil
  then show ?case by simp
next
  case (Cons a kvs)
  then show ?case by (cases a) (simp add: insert_commute)
qed

lemma initializeMCPClient_keys:
  "fst ` set (snd (initializeMCPClient launch n c reg)) \<subseteq> insert n (fst ` set reg)"
  by (auto simp: initializeMCPClient_def fst_set_obj_set
           split: sum.splits provider_outcome.splits option.splits)

lemma initialize_each_keys:
  "fst ` set (initialize_each launch entries reg) \<subseteq> fst ` set reg \<union> fst ` set entries"
proof (induction entries arbitrary: reg)
  case Nil
  then show ?case by simp
next
  case (Cons e entries)
  obtain n c where e: "e = (n, c)" by (cases e)
  have "fst ` set (initialize_each launch entries (snd (initializeMCPClient launch n c reg)))
          \<subseteq> fst ` set (snd (initializeMCPClient launch n c reg)) \<union> fst ` set entries"
    by (rule Cons.IH)
  then have "fst ` set (initialize_each launch entries (snd (initializeMCPClient launch n c reg)))
          \<subseteq> insert n (fst ` set reg) \<union> fst ` set entries"
    using initializeMCPClient_keys [of launch n c reg] by blast
  then show ?case unfolding e by (simp add: subset_iff)
qed

lemma map_of_obj_set_same: "map_of (obj_set k v kvs) k = Some v"
  by (induction kvs) auto

lemma all_tools_serverName:
  "t \<in> set (all_tools reg) \<Longrightarrow> \<exists>n \<in> fst ` set reg. map_of t ''serverName'' = Some (JStr n)"
  by (auto simp: all_tools_def map_of_obj_set_same intro!: bexI)

text \<open>
  Claim C4. When a configured provider fails to start, the registry built by the startup
  loop over the configured providers is the registry the loop builds without that
  provider's entry, so every other provider's tools are what they would be without it,
  and no tool of the catalog is tagged with the failing provider's name.
\<close>

theorem failing_provider_contributes_nothing:
  assumes "distinct (map fst entries)"
    and "(pname, config) \<in> set entries"
    and "fails_to_start launch pname config"
  shows "initialize_each launch entries [] =
           initialize_each launch (filter (\<lambda>e. fst e \<noteq> pname) entries) []
         \<and> (\<forall>t \<in> set (all_tools (initialize_each launch entries [])).
               map_of t ''serverName'' \<noteq> Some (JStr pname))"
proof -
  have only: "\<forall>(n, c) \<in> set entries. n = pname \<longrightarrow> fails_to_start launch n c"
  proof clarify
    fix c assume "(pname, c) \<in> set entries"
    with assms(1,2) have "c = config"
      by (meson eq_key_imp_eq_value)
    with assms(3) show "fails_to_start launch pname c" by simp
  qed
  have eq: "initialize_each launch entries [] =
            initialize_each launch (filter (\<lambda>e. fst e \<noteq> pname) entries) []"
    by (rule initialize_each_skip_failed [OF only])
  have keys: "pname \<notin> fst ` set (initialize_each launch entries [])"
  proof -
    have "fst ` set (initialize_each launch (filter (\<lambda>e. fst e \<noteq> pname) entries) [])
            \<subseteq> fst ` set (filter (\<lambda>e. fst e \<noteq> pname) entries)"
      using initialize_each_keys [of launch "filter (\<lambda>e. fst e \<noteq> pname) entries" "[]"] by simp
    then show ?thesis unfolding eq by auto
  qed
  have "\<forall>t \<in> set (all_tools (initialize_each launch entries [])).
          map_of t ''serverName'' \<noteq> Some (JStr pname)"
  proof
    fix t assume "t \<in> set (all_tools (initialize_each launch entries []))"
    then obtain n where "n \<in> fst ` set (initialize_each launch entries [])"
      and "map_of t ''serverName'' = Some (JStr n)"
      using all_tools_serverName by blast
    with keys show "map_of t ''serverName'' \<noteq> Some (JStr pname)" by auto
  qed
  with eq show ?thesis by simp
qed

theorem failing_provider_contributes_nothing_witness:
  "initialize_each ex_launch ex_entries []
     = [(''b'', \<lparr>client = ''b'', tools = [ [(''name'', JStr ''read_file'')] ]\<rparr>)]
   \<and> all_tools (initialize_each ex_launch ex_entries [])
     = [ [(''name'', JStr ''read_file''), (''serverName'', JStr ''b'')] ]"
proof -
  have d: "distinct (map fst ex_entries)" by (simp add: ex_entries_def)
  have m: "(''a'', JObj [(''command'', JStr ''node'')]) \<in> set ex_entries"
    by (simp add: ex_entries_def)
  have f: "fails_to_start ex_launch ''a'' (JObj [(''command'', JStr ''node'')])"
    by (simp add: fails_to_start_def ex_launch_def)
  show ?thesis
    using failing_provider_contributes_nothing [OF d m f]
    by (simp add: ex_entries_def ex_launch_def initializeMCPClient_def or_else_def all_tools_def)
qed

text \<open>
  Claim C8. When the configuration file cannot be read, or its text cannot be parsed,
  \<open>loadConfig\<close> returns the configuration \<open>{mcpServers: {}}\<close> instead of throwing;
  \<open>initializeClients\<close> then completes with the empty registry, and a session that
  connects is sent the empty catalog.
\<close>

theorem loadConfig_failure_empty_catalog:
  assumes "readFile = Inl e \<or> (\<exists>configFile. readFile = Inr configFile \<and> JSON_parse configFile = Inl e)"
  shows "loadConfig readFile JSON_parse = Inr (JObj [(''mcpServers'', JObj [])])
         \<and> initializeClients readFile JSON_parse launch [] = Inr []
         \<and> connection [] c = c\<lparr>sent := sent c @ [tools_list [] ]\<rparr>"
  using assms
  by (auto simp: loadConfig_def initializeClients_def connection_def ws_send_def all_tools_def)

theorem loadConfig_failure_empty_catalog_witness:
  "loadConfig (Inl (Error ''ENOENT: no such file or directory'')) (\<lambda>s. Inr JNull)
     = Inr (JObj [(''mcpServers'', JObj [])])
   \<and> initializeClients (Inl (Error ''ENOENT: no such file or directory'')) (\<lambda>s. Inr JNull) ex_launch []
     = Inr []"
  using loadConfig_failure_empty_catalog
    [of "Inl (Error ''ENOENT: no such file or directory'')"
        "Error ''ENOENT: no such file or directory''" "\<lambda>s. Inr JNull" ex_launch]
  by simp

section \<open>Properties of the catalog\<close>

lemma initializeMCPClient_keeps_keys:
  "fst ` set reg \<subseteq> fst ` set (snd (initializeMCPClient launch n c reg))"
  by (auto simp: initializeMCPClient_def fst_set_obj_set
           split: sum.splits provider_outcome.splits option.splits)

lemma initialize_each_keeps_keys:
  "fst ` set reg \<subseteq> fst ` set (initialize_each launch entries reg)"
proof (induction entries arbitrary: reg)
  case Nil
  then show ?case by simp
next
  case (Cons e entries)
  obtain n c where e: "e = (n, c)" by (cases e)
  have "fst ` set reg \<subseteq> fst ` set (snd (initializeMCPClient launch n c reg))"
    by (rule initializeMCPClient_keeps_keys)
  also have "\<dots> \<subseteq> fst ` set (initialize_each launch entries (snd (initializeMCPClient launch n c reg)))"
    by (rule Cons.IH)
  finally show ?case by (simp add: e)
qed

lemma step_mcpClients:
  "mcpClients (step launch callTool JSON_parse w ev) =
     initialize_each launch (initializations [ev]) (mcpClients w)"
  by (cases ev) (simp_all add: step_def Let_def split: option.splits)

lemma initializations_Cons:
  "initializations (ev # evs) = initializations [ev] @ initializations evs"
  by (cases ev) simp_all

lemma initialize_each_append:
  "initialize_each launch (xs @ ys) reg = initialize_each launch ys (initialize_each launch xs reg)"
  by (induction xs arbitrary: reg) auto

lemma run_mcpClients:
  "mcpClients (run launch callTool JSON_parse w evs) =
     initialize_each launch (initializations evs) (mcpClients w)"
  unfolding run_def
proof (induction evs arbitrary: w)
  case Nil
  then show ?case by simp
next
  case (Cons ev evs)
  have "mcpClients (foldl (step launch callTool JSON_parse) (step launch callTool JSON_parse w ev) evs)
          = initialize_each launch (initializations evs)
              (mcpClients (step launch callTool JSON_parse w ev))"
    by (rule Cons.IH)
  then show ?case
    by (simp add: step_mcpClients initializations_Cons [of ev evs] initialize_each_append)
qed

lemma list_tools_reply:
  assumes "JSON_parse msg = Inr request"
    and "js_get (Some request) ''type'' = Inr (Some (JStr ''list_tools''))"
  shows "incoming callTool JSON_parse reg msg st =
           st\<lparr>sock := (sock st)\<lparr>sent := sent (sock st) @ [tools_list (all_tools reg)]\<rparr>\<rparr>"
  using assms by (simp add: incoming_def incoming_try_def ws_send_def)

text \<open>
  Claim C3, as stated, fails: provider \<open>b\<close> is registered at startup, session 0 connects,
  \<open>b\<close> exits, and the session's next \<open>list_tools\<close> request is answered with a catalog that
  still holds \<open>b\<close>'s tool \<open>read_file\<close>, although \<open>b\<close> is no longer running.
\<close>

theorem crashed_backend_tools_still_listed:
  "''b'' \<notin> set (running (run ex_launch (\<lambda>c n a. resolves JNull) ex_parse process_start
        [initialize ''b'' (JObj [(''command'', JStr ''python'')]), connect 0, backend_exit ''b'',
         receive 0 ''{\"type\":\"list_tools\"}'']))
   \<and> map_option sent (conns (run ex_launch (\<lambda>c n a. resolves JNull) ex_parse process_start
        [initialize ''b'' (JObj [(''command'', JStr ''python'')]), connect 0, backend_exit ''b'',
         receive 0 ''{\"type\":\"list_tools\"}'']) 0)
     = Some [tools_list [ [(''name'', JStr ''read_file''), (''serverName'', JStr ''b'')] ],
             tools_list [ [(''name'', JStr ''read_file''), (''serverName'', JStr ''b'')] ] ]"
  by (simp add: run_def step_def process_start_def ex_launch_def ex_parse_def connection_def
        ws_send_def all_tools_def incoming_def incoming_try_def Let_def
        initializeMCPClient_def connects_def or_else_def)

text \<open>
  Claim C3, amended. After any sequence of events (turns of the startup loop, connections,
  requests, disconnections, provider exits): a \<open>list_tools\<close> request from any open session
  is answered with one \<open>tools_list\<close> frame holding the stored tools of every backend then in
  the registry, each tagged with its \<open>serverName\<close>; the registry is what the turns of the
  startup loop made so far have built, whatever else happened, and no entry it had is ever
  removed; and a backend's exit changes nothing but the set of running processes, so the
  backend stays in the catalog and no session is disconnected or sent anything.
\<close>

theorem catalog_unchanged_by_backend_exit:
  assumes "JSON_parse msg = Inr request"
    and "js_get (Some request) ''type'' = Inr (Some (JStr ''list_tools''))"
    and "conns (run launch callTool JSON_parse w evs) s = Some c"
    and "\<not> closed c"
  shows "conns (step launch callTool JSON_parse (run launch callTool JSON_parse w evs) (receive s msg)) s
           = Some (c\<lparr>sent := sent c @
               [tools_list (all_tools (mcpClients (run launch callTool JSON_parse w evs)))]\<rparr>)
         \<and> mcpClients (run launch callTool JSON_parse w evs)
             = initialize_each launch (initializations evs) (mcpClients w)
         \<and> fst ` set (mcpClients w) \<subseteq> fst ` set (mcpClients (run launch callTool JSON_parse w evs))
         \<and> step launch callTool JSON_parse (run launch callTool JSON_parse w evs) (backend_exit n)
             = (run launch callTool JSON_parse w evs)
                 \<lparr>running := removeAll n (running (run launch callTool JSON_parse w evs))\<rparr>"
proof -
  let ?W = "run launch callTool JSON_parse w evs"
  have a: "conns (step launch callTool JSON_parse ?W (receive s msg)) s
           = Some (c\<lparr>sent := sent c @ [tools_list (all_tools (mcpClients ?W))]\<rparr>)"
    using assms by (simp add: step_def Let_def list_tools_reply)
  have b: "mcpClients ?W = initialize_each launch (initializations evs) (mcpClients w)"
    by (rule run_mcpClients)
  have c: "fst ` set (mcpClients w) \<subseteq> fst ` set (mcpClients ?W)"
    unfolding b by (rule initialize_each_keeps_keys)
  have d: "step launch callTool JSON_parse ?W (backend_exit n)
             = ?W\<lparr>running := removeAll n (running ?W)\<rparr>"
    by (simp add: step_def)
  from a b c d show ?thesis by blast
qed

theorem catalog_unchanged_by_backend_exit_witness:
  "conns (step ex_launch (\<lambda>c n a. resolves JNull) ex_parse
            (run ex_launch (\<lambda>c n a. resolves JNull) ex_parse process_start
               [initialize ''b'' (JObj [(''command'', JStr ''python'')]), connect 0,
                backend_exit ''b''])
            (receive 0 ''{\"type\":\"list_tools\"}'')) 0
     = Some \<lparr>sent = [tools_list [ [(''name'', JStr ''read_file''), (''serverName'', JStr ''b'')] ],
                     tools_list [ [(''name'', JStr ''read_file''), (''serverName'', JStr ''b'')] ] ],
             closed = False\<rparr>"
proof -
  let ?evs = "[initialize ''b'' (JObj [(''command'', JStr ''python'')]), connect 0,
               backend_exit ''b'']"
  have p: "ex_parse ''{\"type\":\"list_tools\"}'' = Inr ex_list_tools"
    by (simp add: ex_parse_def ex_list_tools_def)
  have t: "js_get (Some ex_list_tools) ''type'' = Inr (Some (JStr ''list_tools''))"
    by (simp add: ex_list_tools_def)
  have r: "mcpClients (run ex_launch (\<lambda>c n a. resolves JNull) ex_parse process_start ?evs)
        = [(''b'', \<lparr>client = ''b'', tools = [ [(''name'', JStr ''read_file'')] ]\<rparr>)]"
    by (simp add: run_mcpClients process_start_def ex_launch_def initializeMCPClient_def or_else_def)
  have c: "conns (run ex_launch (\<lambda>c n a. resolves JNull) ex_parse process_start ?evs) 0
        = Some \<lparr>sent = [tools_list [ [(''name'', JStr ''read_file''), (''serverName'', JStr ''b'')] ] ],
                closed = False\<rparr>"
    by (simp add: run_def step_def process_start_def ex_launch_def connection_def ws_send_def
          all_tools_def initializeMCPClient_def connects_def or_else_def)
  have n: "\<not> closed \<lparr>sent = [tools_list [ [(''name'', JStr ''read_file''), (''serverName'', JStr ''b'')] ] ],
                closed = False\<rparr>"
    by simp
  show ?thesis
    using catalog_unchanged_by_backend_exit [OF p t c n]
    by (simp add: r all_tools_def)
qed

section \<open>Properties of schema normalization\<close>

lemma convert_properties_console:
  "convert_properties props acc con =
     (fst (convert_properties props acc []), con @ snd (convert_properties props acc []))"
proof (induction props arbitrary: acc con)
  case Nil
  then show ?case by simp
next
  case (Cons e props)
  obtain key pr where e: "e = (key, pr)" by (cases e)
  show ?case
  proof (cases "convert_property pr")
    case (Inl err)
    then show ?thesis by (simp add: e)
  next
    case (Inr p)
    have "convert_properties props (obj_assign key p acc) (con @ [log_converting_property key pr])
          = (fst (convert_properties props (obj_assign key p acc) []),
             (con @ [log_converting_property key pr]) @ snd (convert_properties props (obj_assign key p acc) []))"
      by (rule Cons.IH)
    moreover have "convert_properties props (obj_assign key p acc) [log_converting_property key pr]
          = (fst (convert_properties props (obj_assign key p acc) []),
             [log_converting_property key pr] @ snd (convert_properties props (obj_assign key p acc) []))"
      by (rule Cons.IH)
    ultimately show ?thesis by (simp add: e Inr)
  qed
qed

lemma convertTool_console:
  "convertToolToFunctionDeclaration tool con =
     (fst (convertToolToFunctionDeclaration tool []), con @ snd (convertToolToFunctionDeclaration tool []))"
proof (cases "schema_properties tool")
  case None
  then show ?thesis
    by (simp add: convertToolToFunctionDeclaration_def Let_def split: sum.splits)
next
  case (Some props)
  have a: "convert_properties props [] (con @ [log_converting_tool (name tool) (inputSchema tool)])
        = (fst (convert_properties props [] []),
           (con @ [log_converting_tool (name tool) (inputSchema tool)]) @ snd (convert_properties props [] []))"
    by (rule convert_properties_console)
  have b: "convert_properties props [] [log_converting_tool (name tool) (inputSchema tool)]
        = (fst (convert_properties props [] []),
           [log_converting_tool (name tool) (inputSchema tool)] @ snd (convert_properties props [] []))"
    by (rule convert_properties_console)
  show ?thesis
    by (simp add: convertToolToFunctionDeclaration_def Let_def Some a b split: sum.splits)
qed

text \<open>
  Claim C6. The declaration (or throw) that \<open>convertToolToFunctionDeclaration\<close> returns for
  a tool does not depend on the console it runs against; in particular a second
  application, run after the first, returns what the first returned. The only effect of
  an application is to append its own log entries to the console.
\<close>

theorem conversion_independent_of_console:
  "fst (convertToolToFunctionDeclaration tool con) = fst (convertToolToFunctionDeclaration tool con')
   \<and> fst (convertToolToFunctionDeclaration tool (snd (convertToolToFunctionDeclaration tool con)))
       = fst (convertToolToFunctionDeclaration tool con)
   \<and> snd (convertToolToFunctionDeclaration tool con)
       = con @ snd (convertToolToFunctionDeclaration tool [])"
proof -
  have "\<And>c. fst (convertToolToFunctionDeclaration tool c) = fst (convertToolToFunctionDeclaration tool [])"
    by (subst convertTool_console) simp
  moreover have "snd (convertToolToFunctionDeclaration tool con)
       = con @ snd (convertToolToFunctionDeclaration tool [])"
    by (subst convertTool_console) simp
  ultimately show ?thesis by metis
qed

lemma filter_valid_fst: "fst (filter_valid tls con) = filter kept tls"
proof (induction tls arbitrary: con)
  case Nil
  then show ?case by simp
next
  case (Cons tool tls)
  have "fst (filter_valid tls con) = filter kept tls" by (rule Cons.IH)
  then show ?case
    by (cases "filter_valid tls con") (simp add: kept_def [of tool] Cons.IH)
qed

lemma convert_each_fst:
  "fst (convert_each tls con) = collect (map (\<lambda>t. fst (convertToolToFunctionDeclaration t [])) tls)"
proof (induction tls arbitrary: con)
  case Nil
  then show ?case by simp
next
  case (Cons tool tls)
  let ?c = "con @ [log_converting_from (name tool) (serverName tool)]"
  have r: "convertToolToFunctionDeclaration tool ?c
      = (fst (convertToolToFunctionDeclaration tool []), ?c @ snd (convertToolToFunctionDeclaration tool []))"
    by (rule convertTool_console)
  show ?case
  proof (cases "fst (convertToolToFunctionDeclaration tool [])")
    case (Inl e)
    then show ?thesis using r by simp
  next
    case (Inr d)
    let ?c2 = "(?c @ snd (convertToolToFunctionDeclaration tool [])) @ [log_converted_to (name tool) d]"
    have ih: "fst (convert_each tls ?c2)
        = collect (map (\<lambda>t. fst (convertToolToFunctionDeclaration t [])) tls)"
      by (rule Cons.IH)
    show ?thesis
    proof (cases "convert_each tls ?c2")
      case (Pair res con2)
      with ih have "res = collect (map (\<lambda>t. fst (convertToolToFunctionDeclaration t [])) tls)"
        by simp
      with Pair r Inr show ?thesis
        by (simp split: sum.splits)
    qed
  qed
qed

text \<open>
  Claim C10. \<open>filterAndConvertTools\<close> returns the conversions of exactly the tools that
  have schema properties and whose \<open>serverName\<close> is neither \<open>filesystem\<close> nor
  \<open>docker-mcp\<close>, in their original order (or the first throw among those conversions).
\<close>

theorem filterAndConvertTools_result:
  "fst (filterAndConvertTools tls con)
     = collect (map (\<lambda>t. fst (convertToolToFunctionDeclaration t [])) (filter kept tls))"
proof -
  obtain valid con1 where fv: "filter_valid tls con = (valid, con1)" by (cases "filter_valid tls con")
  then have "valid = filter kept tls" using filter_valid_fst [of tls con] by simp
  then show ?thesis by (simp add: filterAndConvertTools_def fv convert_each_fst)
qed

lemma map_of_obj_set: "map_of (obj_set k v kvs) = (map_of kvs)(k \<mapsto> v)"
  by (induction kvs) auto

lemma map_of_obj_assign_other: "key \<noteq> k \<Longrightarrow> map_of (obj_assign k v kvs) key = map_of kvs key"
  by (simp add: obj_assign_def map_of_obj_set)

lemma map_of_obj_assign_same: "k \<noteq> ''__proto__'' \<Longrightarrow> map_of (obj_assign k v kvs) k = Some v"
  by (simp add: obj_assign_def map_of_obj_set)

lemma js_get_nonnull: "p \<noteq> JNull \<Longrightarrow> js_get (Some p) k = Inr (js_get_opt (Some p) k)"
  by (cases p) simp_all

lemma cleanDescription_describable: "describable d \<Longrightarrow> \<exists>s. cleanDescription d = Inr s"
  by (cases d rule: describable.cases) simp_all

subsection \<open>toolConversion\<close>

lemma convert_properties_other:
  "fst (convert_properties props acc con) = Inr res \<Longrightarrow> key \<notin> fst ` set props
   \<Longrightarrow> map_of res key = map_of acc key"
proof (induction props arbitrary: acc con)
  case Nil
  then show ?case by simp
next
  case (Cons e props)
  obtain k pr where e: "e = (k, pr)" by (cases e)
  from Cons.prems(2) have k: "key \<noteq> k" and rest: "key \<notin> fst ` set props" by (auto simp: e)
  from Cons.prems(1) obtain p where p: "convert_property pr = Inr p"
    by (cases "convert_property pr") (simp_all add: e)
  with Cons.prems(1) have "fst (convert_properties props (obj_assign k p acc)
        (con @ [log_converting_property k pr])) = Inr res"
    by (simp add: e)
  then have "map_of res key = map_of (obj_assign k p acc) key"
    using rest by (rule Cons.IH)
  with k show ?case by (simp add: map_of_obj_assign_other)
qed

lemma convert_properties_at:
  "fst (convert_properties props acc con) = Inr res \<Longrightarrow> distinct (map fst props)
   \<Longrightarrow> (key, pr) \<in> set props \<Longrightarrow> key \<noteq> ''__proto__''
   \<Longrightarrow> \<exists>p. convert_property pr = Inr p \<and> map_of res key = Some p"
proof (induction props arbitrary: acc con)
  case Nil
  then show ?case by simp
next
  case (Cons e props)
  obtain k q where e: "e = (k, q)" by (cases e)
  from Cons.prems(1) obtain p where p: "convert_property q = Inr p"
    by (cases "convert_property q") (simp_all add: e)
  with Cons.prems(1) have run: "fst (convert_properties props (obj_assign k p acc)
        (con @ [log_converting_property k q])) = Inr res"
    by (simp add: e)
  from Cons.prems(2) have fresh: "k \<notin> fst ` set props" and d: "distinct (map fst props)"
    by (simp_all add: e)
  show ?case
  proof (cases "(key, pr) = (k, q)")
    case True
    from run fresh have "map_of res k = map_of (obj_assign k p acc) k"
      by (rule convert_properties_other)
    with True p Cons.prems(4) show ?thesis by (simp add: map_of_obj_assign_same)
  next
    case False
    with Cons.prems(3) have "(key, pr) \<in> set props" by (auto simp: e)
    with run d show ?thesis using Cons.prems(4) by (rule Cons.IH)
  qed
qed

lemma convert_property_array_default:
  assumes "js_get (Some pr) ''type'' = Inr (Some (JStr ''array''))"
    and "js_get_opt (js_get_opt (Some pr) ''items'') ''type'' = None"
    and "convert_property pr = Inr p"
  shows "property_type p = ARRAY \<and> (\<exists>it. property_items p = Some it \<and> items_type it = STRING)"
  using assms
  by (auto simp: convert_property_def Let_def items_schema_type_def
           split: sum.splits if_splits)

lemma convert_nested_ok:
  "list_all (\<lambda>e. well_formed_field (snd e)) es \<Longrightarrow> \<exists>r. convert_nested es acc = Inr r"
proof (induction es arbitrary: acc)
  case Nil
  then show ?case by simp
next
  case (Cons e es)
  obtain k sp where e: "e = (k, sp)" by (cases e)
  from Cons.prems have wf: "well_formed_field sp" and rest: "list_all (\<lambda>e. well_formed_field (snd e)) es"
    by (simp_all add: e)
  from wf obtain s where s: "cleanDescription (js_get_opt (Some sp) ''description'') = Inr s"
    using cleanDescription_describable by (auto simp: well_formed_field_def)
  from wf have t: "js_get (Some sp) ''type'' = Inr (js_get_opt (Some sp) ''type'')"
    by (simp add: well_formed_field_def js_get_nonnull)
  show ?case using Cons.IH [OF rest] by (simp add: e s t)
qed

lemma convert_property_ok:
  assumes "well_formed_property pr"
  shows "\<exists>p. convert_property pr = Inr p"
proof -
  from assms have wf: "well_formed_field pr" by (simp add: well_formed_property_def)
  then obtain s where s: "cleanDescription (js_get_opt (Some pr) ''description'') = Inr s"
    using cleanDescription_describable by (auto simp: well_formed_field_def)
  from wf have t: "js_get (Some pr) ''type'' = Inr (js_get_opt (Some pr) ''type'')"
    by (simp add: well_formed_field_def js_get_nonnull)
  show ?thesis
  proof (cases "object_entries (js_get_opt (js_get_opt (Some pr) ''items'') ''properties'')")
    case (Inl err)
    then have "\<not> truthy (js_get_opt (js_get_opt (Some pr) ''items'') ''properties'')"
      by (cases "js_get_opt (js_get_opt (Some pr) ''items'') ''properties''" rule: object_entries.cases)
         simp_all
    then show ?thesis by (simp add: convert_property_def Let_def s t)
  next
    case (Inr es)
    with assms have "list_all (\<lambda>e. well_formed_field (snd e)) es"
      by (simp add: well_formed_property_def)
    then obtain r where "convert_nested es [] = Inr r"
      using convert_nested_ok by blast
    with Inr show ?thesis by (simp add: convert_property_def Let_def s t)
  qed
qed

lemma convert_properties_ok:
  "list_all (\<lambda>e. well_formed_property (snd e)) props
   \<Longrightarrow> \<exists>res. fst (convert_properties props acc con) = Inr res"
proof (induction props arbitrary: acc con)
  case Nil
  then show ?case by simp
next
  case (Cons e props)
  obtain k pr where e: "e = (k, pr)" by (cases e)
  from Cons.prems obtain p where p: "convert_property pr = Inr p"
    using convert_property_ok by (auto simp: e)
  from Cons.prems have "list_all (\<lambda>e. well_formed_property (snd e)) props" by simp
  then show ?case using Cons.IH by (simp add: e p)
qed

subsection \<open>The component file's copy\<close>

lemma convert_properties_Altair_other:
  "fst (convert_properties_Altair props acc con) = Inr res \<Longrightarrow> key \<notin> fst ` set props
   \<Longrightarrow> map_of res key = map_of acc key"
proof (induction props arbitrary: acc con)
  case Nil
  then show ?case by simp
next
  case (Cons e props)
  obtain k pr where e: "e = (k, pr)" by (cases e)
  from Cons.prems(2) have k: "key \<noteq> k" and rest: "key \<notin> fst ` set props" by (auto simp: e)
  from Cons.prems(1) obtain p where p: "convert_property_Altair pr = Inr p"
    by (cases "convert_property_Altair pr") (simp_all add: e)
  with Cons.prems(1) have "fst (convert_properties_Altair props (obj_assign k p acc)
        (con @ [log_converting_property k pr])) = Inr res"
    by (simp add: e)
  then have "map_of res key = map_of (obj_assign k p acc) key"
    using rest by (rule Cons.IH)
  with k show ?case by (simp add: map_of_obj_assign_other)
qed

lemma convert_properties_Altair_at:
  "fst (convert_properties_Altair props acc con) = Inr res \<Longrightarrow> distinct (map fst props)
   \<Longrightarrow> (key, pr) \<in> set props \<Longrightarrow> key \<noteq> ''__proto__''
   \<Longrightarrow> \<exists>p. convert_property_Altair pr = Inr p \<and> map_of res key = Some p"
proof (induction props arbitrary: acc con)
  case Nil
  then show ?case by simp
next
  case (Cons e props)
  obtain k q where e: "e = (k, q)" by (cases e)
  from Cons.prems(1) obtain p where p: "convert_property_Altair q = Inr p"
    by (cases "convert_property_Altair q") (simp_all add: e)
  with Cons.prems(1) have run: "fst (convert_properties_Altair props (obj_assign k p acc)
        (con @ [log_converting_property k q])) = Inr res"
    by (simp add: e)
  from Cons.prems(2) have fresh: "k \<notin> fst ` set props" and d: "distinct (map fst props)"
    by (simp_all add: e)
  show ?case
  proof (cases "(key, pr) = (k, q)")
    case True
    from run fresh have "map_of res k = map_of (obj_assign k p acc) k"
      by (rule convert_properties_Altair_other)
    with True p Cons.prems(4) show ?thesis by (simp add: map_of_obj_assign_same)
  next
    case False
    with Cons.prems(3) have "(key, pr) \<in> set props" by (auto simp: e)
    with run d show ?thesis using Cons.prems(4) by (rule Cons.IH)
  qed
qed

lemma convert_property_Altair_array_default:
  assumes "js_get (Some pr) ''type'' = Inr (Some (JStr ''array''))"
    and "js_get_opt (js_get_opt (Some pr) ''items'') ''type'' = None"
    and "convert_property_Altair pr = Inr p"
  shows "property_type p = ARRAY \<and> (\<exists>it. property_items p = Some it \<and> items_type it = STRING)"
  using assms
  by (auto simp: convert_property_Altair_def Let_def items_schema_type_def
           split: sum.splits if_splits)

lemma convert_nested_Altair_ok:
  "list_all (\<lambda>e. well_formed_field (snd e)) es \<Longrightarrow> \<exists>r. convert_nested_Altair es acc = Inr r"
proof (induction es arbitrary: acc)
  case Nil
  then show ?case by simp
next
  case (Cons e es)
  obtain k sp where e: "e = (k, sp)" by (cases e)
  from Cons.prems have wf: "well_formed_field sp" and rest: "list_all (\<lambda>e. well_formed_field (snd e)) es"
    by (simp_all add: e)
  from wf have t: "js_get (Some sp) ''type'' = Inr (js_get_opt (Some sp) ''type'')"
    by (simp add: well_formed_field_def js_get_nonnull)
  show ?case using Cons.IH [OF rest] by (simp add: e t)
qed

lemma convert_property_Altair_ok:
  assumes "well_formed_property pr"
  shows "\<exists>p. convert_property_Altair pr = Inr p"
proof -
  from assms have wf: "well_formed_field pr" by (simp add: well_formed_property_def)
  then have t: "js_get (Some pr) ''type'' = Inr (js_get_opt (Some pr) ''type'')"
    by (simp add: well_formed_field_def js_get_nonnull)
  show ?thesis
  proof (cases "object_entries (js_get_opt (js_get_opt (Some pr) ''items'') ''properties'')")
    case (Inl err)
    then have "\<not> truthy (js_get_opt (js_get_opt (Some pr) ''items'') ''properties'')"
      by (cases "js_get_opt (js_get_opt (Some pr) ''items'') ''properties''" rule: object_entries.cases)
         simp_all
    then show ?thesis by (simp add: convert_property_Altair_def Let_def t)
  next
    case (Inr es)
    with assms have "list_all (\<lambda>e. well_formed_field (snd e)) es"
      by (simp add: well_formed_property_def)
    then obtain r where "convert_nested_Altair es [] = Inr r"
      using convert_nested_Altair_ok by blast
    with Inr show ?thesis by (simp add: convert_property_Altair_def Let_def t)
  qed
qed

lemma convert_properties_Altair_ok:
  "list_all (\<lambda>e. well_formed_property (snd e)) props
   \<Longrightarrow> \<exists>res. fst (convert_properties_Altair props acc con) = Inr res"
proof (induction props arbitrary: acc con)
  case Nil
  then show ?case by simp
next
  case (Cons e props)
  obtain k pr where e: "e = (k, pr)" by (cases e)
  from Cons.prems obtain p where p: "convert_property_Altair pr = Inr p"
    using convert_property_Altair_ok by (auto simp: e)
  from Cons.prems have "list_all (\<lambda>e. well_formed_property (snd e)) props" by simp
  then show ?case using Cons.IH by (simp add: e p)
qed

lemma convertTool_array_default:
  assumes "schema_properties tool = Some props"
    and "distinct (map fst props)"
    and "list_all (\<lambda>e. well_formed_property (snd e)) props"
    and "(key, pr) \<in> set props"
    and "key \<noteq> ''__proto__''"
    and "js_get (Some pr) ''type'' = Inr (Some (JStr ''array''))"
    and "js_get_opt (js_get_opt (Some pr) ''items'') ''type'' = None"
  shows "\<exists>decl p it. fst (convertToolToFunctionDeclaration tool con) = Inr decl
           \<and> map_of (parameters_properties (decl_parameters decl)) key = Some p
           \<and> property_type p = ARRAY \<and> property_items p = Some it \<and> items_type it = STRING"
proof -
  let ?c = "con @ [log_converting_tool (name tool) (inputSchema tool)]"
  obtain res where res: "fst (convert_properties props [] ?c) = Inr res"
    using convert_properties_ok [OF assms(3)] by blast
  then obtain p where p: "convert_property pr = Inr p" and at: "map_of res key = Some p"
    using convert_properties_at [OF res assms(2) assms(4) assms(5)] by blast
  from convert_property_array_default [OF assms(6) assms(7) p]
  obtain it where it: "property_type p = ARRAY" "property_items p = Some it" "items_type it = STRING"
    by blast
  from res obtain c2 where run: "convert_properties props [] ?c = (Inr res, c2)"
    by (cases "convert_properties props [] ?c") simp
  obtain s where s: "cleanDescription (map_option JStr (description tool)) = Inr s"
    by (cases "description tool") simp_all
  have "fst (convertToolToFunctionDeclaration tool con)
          = Inr \<lparr>decl_name = name tool, decl_description = Some (JStr s),
                 decl_parameters = \<lparr>parameters_type = OBJECT, parameters_properties = res,
                                      parameters_required = schema_required tool\<rparr>\<rparr>"
    by (simp add: convertToolToFunctionDeclaration_def Let_def assms(1) run s)
  with at it show ?thesis by simp
qed

lemma convertTool_Altair_array_default:
  assumes "schema_properties tool = Some props"
    and "distinct (map fst props)"
    and "list_all (\<lambda>e. well_formed_property (snd e)) props"
    and "(key, pr) \<in> set props"
    and "key \<noteq> ''__proto__''"
    and "js_get (Some pr) ''type'' = Inr (Some (JStr ''array''))"
    and "js_get_opt (js_get_opt (Some pr) ''items'') ''type'' = None"
  shows "\<exists>decl p it. fst (convertToolToFunctionDeclaration_Altair tool con) = Inr decl
           \<and> map_of (parameters_properties (decl_parameters decl)) key = Some p
           \<and> property_type p = ARRAY \<and> property_items p = Some it \<and> items_type it = STRING"
proof -
  let ?c = "con @ [log_converting_tool (name tool) (inputSchema tool)]"
  obtain res where res: "fst (convert_properties_Altair props [] ?c) = Inr res"
    using convert_properties_Altair_ok [OF assms(3)] by blast
  then obtain p where p: "convert_property_Altair pr = Inr p" and at: "map_of res key = Some p"
    using convert_properties_Altair_at [OF res assms(2) assms(4) assms(5)] by blast
  from convert_property_Altair_array_default [OF assms(6) assms(7) p]
  obtain it where it: "property_type p = ARRAY" "property_items p = Some it" "items_type it = STRING"
    by blast
  from res obtain c2 where run: "convert_properties_Altair props [] ?c = (Inr res, c2)"
    by (cases "convert_properties_Altair props [] ?c") simp
  have "fst (convertToolToFunctionDeclaration_Altair tool con)
          = Inr \<lparr>decl_name = name tool, decl_description = map_option JStr (description tool),
                 decl_parameters = \<lparr>parameters_type = OBJECT, parameters_properties = res,
                                      parameters_required = schema_required tool\<rparr>\<rparr>"
    by (simp add: convertToolToFunctionDeclaration_Altair_def Let_def assms(1) run)
  with at it show ?thesis by simp
qed

text \<open>
  Claim C5, as stated, fails: the tool below has one field, of type \<open>array\<close> with no
  \<open>items\<close>, whose \<open>description\<close> is the number 5; \<open>cleanDescription\<close> calls \<open>replace\<close> on
  the number and the conversion throws instead of returning a declaration.
\<close>

theorem array_field_numeric_description_throws:
  "isl (fst (convertToolToFunctionDeclaration ex_tool_numeric_description []))"
  by (simp add: ex_tool_numeric_description_def convertToolToFunctionDeclaration_def
        schema_properties_def convert_property_def Let_def)

text \<open>A field named \<open>__proto__\<close> is converted, but the assignment of the result creates no
  property: the declaration has no such field.\<close>

lemma proto_field_not_in_declaration:
  "map_option (\<lambda>decl. parameters_properties (decl_parameters decl))
     (case fst (convertToolToFunctionDeclaration
                  \<lparr>name = ''t'', description = None, serverName = ''web'',
                   inputSchema = Some \<lparr>schema_uri = None, schema_type = None,
                     properties = Some [(''__proto__'', JObj [(''type'', JStr ''array'')])],
                     required = None, additionalProperties = None\<rparr>\<rparr> []) of
        Inl e \<Rightarrow> None | Inr decl \<Rightarrow> Some decl)
   = Some []"
  by (simp add: convertToolToFunctionDeclaration_def schema_properties_def schema_required_def
        convert_property_def items_schema_type_def obj_assign_def Let_def)

text \<open>
  Claim C5, amended. For a tool whose fields have the shape the \<open>Tool\<close> interface declares
  (every field, and every nested field of array items, is an object whose description is
  absent, null or a string), a field of type \<open>array\<close>, named anything but \<open>__proto__\<close>, whose
  items have no \<open>type\<close> (no \<open>items\<close> at all, or \<open>items\<close> without a type) is converted, by
  both copies of the conversion, into an \<open>ARRAY\<close> field whose items have type \<open>STRING\<close>: the
  conversion returns a declaration and the field is present in it.
\<close>

theorem well_formed_array_items_default_to_string:
  assumes "schema_properties tool = Some props"
    and "distinct (map fst props)"
    and "list_all (\<lambda>e. well_formed_property (snd e)) props"
    and "(key, pr) \<in> set props"
    and "key \<noteq> ''__proto__''"
    and "js_get (Some pr) ''type'' = Inr (Some (JStr ''array''))"
    and "js_get_opt (js_get_opt (Some pr) ''items'') ''type'' = None"
  shows "(\<exists>decl p it. fst (convertToolToFunctionDeclaration tool con) = Inr decl
           \<and> map_of (parameters_properties (decl_parameters decl)) key = Some p
           \<and> property_type p = ARRAY \<and> property_items p = Some it \<and> items_type it = STRING)
       \<and> (\<exists>decl p it. fst (convertToolToFunctionDeclaration_Altair tool con) = Inr decl
           \<and> map_of (parameters_properties (decl_parameters decl)) key = Some p
           \<and> property_type p = ARRAY \<and> property_items p = Some it \<and> items_type it = STRING)"
  using convertTool_array_default [OF assms] convertTool_Altair_array_default [OF assms]
  by simp

theorem well_formed_array_items_default_to_string_witness:
  "fst (convertToolToFunctionDeclaration ex_tool [])
     = Inr \<lparr>decl_name = ''search'', decl_description = Some (JStr ''Search the web''),
            decl_parameters = \<lparr>parameters_type = OBJECT,
              parameters_properties =
                [(''query'', \<lparr>property_type = STRING, property_items = None,
                              property_description = Some (JStr [])\<rparr>),
                 (''tags'', \<lparr>property_type = ARRAY,
                             property_items = Some \<lparr>items_type = STRING, items_properties = None,
                                                    items_required = None\<rparr>,
                             property_description = Some (JStr [])\<rparr>)],
              parameters_required = [''query'']\<rparr>\<rparr>"
proof -
  have a: "schema_properties ex_tool = Some [(''query'', JObj [(''type'', JStr ''string'')]),
                          (''tags'', JObj [(''type'', JStr ''array'')])]"
    by (simp add: ex_tool_def schema_properties_def)
  have b: "distinct (map fst [(''query'', JObj [(''type'', JStr ''string'')]),
                          (''tags'', JObj [(''type'', JStr ''array'')])])"
    by simp
  have c: "list_all (\<lambda>e. well_formed_property (snd e)) [(''query'', JObj [(''type'', JStr ''string'')]),
                          (''tags'', JObj [(''type'', JStr ''array'')])]"
    by (simp add: well_formed_property_def well_formed_field_def)
  have d: "(''tags'', JObj [(''type'', JStr ''array'')]) \<in> set [(''query'', JObj [(''type'', JStr ''string'')]),
                          (''tags'', JObj [(''type'', JStr ''array'')])]"
    by simp
  have k: "''tags'' \<noteq> ''__proto__''"
    by simp
  have e: "js_get (Some (JObj [(''type'', JStr ''array'')])) ''type'' = Inr (Some (JStr ''array''))"
    by simp
  have f: "js_get_opt (js_get_opt (Some (JObj [(''type'', JStr ''array'')])) ''items'') ''type'' = None"
    by simp
  show ?thesis
    using well_formed_array_items_default_to_string [OF a b c d k e f, of "[]"]
    by (simp add: ex_tool_def convertToolToFunctionDeclaration_def schema_properties_def
          schema_required_def convert_property_def field_schema_type_def items_schema_type_def
          obj_assign_def Let_def)
qed

section \<open>Properties of the front end's connection\<close>

lemma sendOrQueue_fields [simp]:
  "messageHandlers (sendOrQueue m st) = messageHandlers st"
  "resolved (sendOrQueue m st) = resolved st"
  "next_promise (sendOrQueue m st) = next_promise st"
  by (simp_all add: sendOrQueue_def)

lemma onmessage_next_promise:
  "next_promise (snd (onmessage JSON_parse data st)) = next_promise st"
  by (simp add: onmessage_def split: sum.splits option.splits)

lemma onmessage_handlers:
  "messageHandlers (snd (onmessage JSON_parse data st)) k = Some h \<Longrightarrow> messageHandlers st k = Some h"
  by (simp add: onmessage_def split: sum.splits option.splits if_splits)

lemma onmessage_resolved:
  "q \<in> fst ` set (resolved (snd (onmessage JSON_parse data st)))
   \<Longrightarrow> q \<in> fst ` set (resolved st) \<or> (\<exists>k. messageHandlers st k = Some q)"
  by (auto simp: onmessage_def split: sum.splits option.splits if_splits)

lemma handlers_known_init: "handlers_known client_init"
  by (simp add: handlers_known_def client_init_def)

lemma handlers_known_step:
  assumes "handlers_known st"
  shows "handlers_known (client_step JSON_parse st ev)"
proof -
  from assms have a: "\<And>k h. messageHandlers st k = Some h \<Longrightarrow> h < next_promise st"
    and b: "\<And>q. q \<in> fst ` set (resolved st) \<Longrightarrow> q < next_promise st"
    by (auto simp: handlers_known_def)
  show ?thesis
  proof (cases ev)
    case ev_open
    with assms show ?thesis by (simp add: client_step_def onopen_def handlers_known_def)
  next
    case (ev_message data)
    let ?st' = "snd (onmessage JSON_parse data st)"
    have n: "next_promise ?st' = next_promise st" by (rule onmessage_next_promise)
    have "\<forall>k h. messageHandlers ?st' k = Some h \<longrightarrow> h < next_promise ?st'"
    proof (intro allI impI)
      fix k h assume "messageHandlers ?st' k = Some h"
      then have "messageHandlers st k = Some h" by (rule onmessage_handlers)
      then show "h < next_promise ?st'" using a n by simp
    qed
    moreover have "\<forall>q \<in> fst ` set (resolved ?st'). q < next_promise ?st'"
    proof
      fix q assume "q \<in> fst ` set (resolved ?st')"
      then have "q \<in> fst ` set (resolved st) \<or> (\<exists>k. messageHandlers st k = Some q)"
        by (rule onmessage_resolved)
      then show "q < next_promise ?st'" using a b n by auto
    qed
    ultimately show ?thesis
      unfolding handlers_known_def ev_message client_step_def by simp
  next
    case ev_close
    with assms show ?thesis by (simp add: client_step_def onclose_def handlers_known_def)
  next
    case ev_error
    with assms show ?thesis by (simp add: client_step_def)
  next
    case (ev_onToolsUpdate cb)
    with assms show ?thesis by (simp add: client_step_def onToolsUpdate_def handlers_known_def)
  next
    case (ev_callTool r s t u)
    let ?st' = "snd (wsClient_callTool r s t u st)"
    have n: "next_promise ?st' = Suc (next_promise st)"
      and m: "messageHandlers ?st' = (messageHandlers st)(r \<mapsto> next_promise st)"
      and rs: "resolved ?st' = resolved st"
      by (simp_all add: wsClient_callTool_def)
    have "\<forall>k h. messageHandlers ?st' k = Some h \<longrightarrow> h < next_promise ?st'"
    proof (intro allI impI)
      fix k h assume "messageHandlers ?st' k = Some h"
      then have "h = next_promise st \<or> messageHandlers st k = Some h"
        by (simp add: m split: if_splits)
      then show "h < next_promise ?st'" using a n by (auto simp: less_Suc_eq)
    qed
    moreover have "\<forall>q \<in> fst ` set (resolved ?st'). q < next_promise ?st'"
      using b n rs by (simp add: less_Suc_eq)
    ultimately show ?thesis
      unfolding handlers_known_def ev_callTool client_step_def by simp
  qed
qed

lemma js_get_Inr: "js_get v k = Inr t \<Longrightarrow> js_get_opt v k = t"
  by (induction v k rule: js_get.induct) simp_all

lemma handler_key_Some: "handler_key v = Some s \<Longrightarrow> v = Some (JStr s)"
  by (simp add: handler_key_def split: option.splits json.splits)

lemma onmessage_handlers_rid:
  assumes "\<not> concerns JSON_parse rid (ev_message data)"
  shows "messageHandlers (snd (onmessage JSON_parse data st)) rid = messageHandlers st rid"
proof (cases "JSON_parse data")
  case (Inl e)
  then show ?thesis by (simp add: onmessage_def)
next
  case (Inr msg)
  show ?thesis
  proof (cases "js_get (Some msg) ''type''")
    case (Inl e)
    with Inr show ?thesis by (simp add: onmessage_def)
  next
    case ty: (Inr ty)
    have ty': "js_get_opt (Some msg) ''type'' = ty" using ty by (rule js_get_Inr)
    show ?thesis
    proof (cases "ty = Some (JStr ''tool_response'')")
      case False
      then show ?thesis by (simp add: onmessage_def Inr ty split: option.splits)
    next
      case True
      have ne: "js_get_opt (Some msg) ''requestId'' \<noteq> Some (JStr rid)"
        using assms by (simp add: concerns_def Inr ty' True)
      show ?thesis
      proof (cases "handler_key (js_get_opt (Some msg) ''requestId'')")
        case None
        then show ?thesis by (simp add: onmessage_def Inr ty True)
      next
        case (Some rid')
        have "rid' \<noteq> rid" using handler_key_Some [OF Some] ne by auto
        then show ?thesis by (simp add: onmessage_def Inr ty True Some split: option.splits)
      qed
    qed
  qed
qed

lemma onmessage_resolved_by:
  assumes "q \<in> fst ` set (resolved (snd (onmessage JSON_parse data st)))"
    and "q \<notin> fst ` set (resolved st)"
  shows "\<exists>k. messageHandlers st k = Some q \<and> concerns JSON_parse k (ev_message data)"
proof (cases "JSON_parse data")
  case (Inl e)
  with assms show ?thesis by (simp add: onmessage_def)
next
  case (Inr msg)
  show ?thesis
  proof (cases "js_get (Some msg) ''type''")
    case (Inl e)
    with Inr assms show ?thesis by (simp add: onmessage_def)
  next
    case ty: (Inr ty)
    have ty': "js_get_opt (Some msg) ''type'' = ty" using ty by (rule js_get_Inr)
    show ?thesis
    proof (cases "ty = Some (JStr ''tool_response'')")
      case False
      have "resolved (snd (onmessage JSON_parse data st)) = resolved st"
        using False by (simp add: onmessage_def Inr ty split: option.splits)
      with assms show ?thesis by simp
    next
      case True
      show ?thesis
      proof (cases "handler_key (js_get_opt (Some msg) ''requestId'')")
        case None
        have "resolved (snd (onmessage JSON_parse data st)) = resolved st"
          by (simp add: onmessage_def Inr ty True None)
        with assms show ?thesis by simp
      next
        case (Some rid')
        have rq: "js_get_opt (Some msg) ''requestId'' = Some (JStr rid')"
          using Some by (rule handler_key_Some)
        show ?thesis
        proof (cases "messageHandlers st rid'")
          case None
          have "resolved (snd (onmessage JSON_parse data st)) = resolved st"
            by (simp add: onmessage_def Inr ty True Some None)
          with assms show ?thesis by simp
        next
          case hd: (Some handler)
          have "resolved (snd (onmessage JSON_parse data st))
                  = resolved st @ [(handler, js_get_opt (Some msg) ''response'')]"
            by (simp add: onmessage_def Inr ty True Some hd)
          with assms have "q = handler" by auto
          moreover have "concerns JSON_parse rid' (ev_message data)"
            by (simp add: concerns_def Inr ty' True rq)
          ultimately show ?thesis using hd by blast
        qed
      qed
    qed
  qed
qed


lemma pending_onmessage:
  assumes "pending rid p st" and "\<not> concerns JSON_parse rid (ev_message data)"
  shows "pending rid p (snd (onmessage JSON_parse data st))"
proof -
  let ?st' = "snd (onmessage JSON_parse data st)"
  have h: "messageHandlers st rid = Some p"
    and u: "\<forall>k. messageHandlers st k = Some p \<longrightarrow> k = rid"
    and r: "p \<notin> fst ` set (resolved st)"
    and k: "handlers_known st"
    using assms(1) unfolding pending_def by blast+
  have c1: "messageHandlers ?st' rid = Some p"
    using onmessage_handlers_rid [OF assms(2)] h by simp
  have c2: "\<forall>k. messageHandlers ?st' k = Some p \<longrightarrow> k = rid"
  proof (intro allI impI)
    fix k assume "messageHandlers ?st' k = Some p"
    then have "messageHandlers st k = Some p" by (rule onmessage_handlers)
    with u show "k = rid" by blast
  qed
  have c3: "p \<notin> fst ` set (resolved ?st')"
  proof
    assume "p \<in> fst ` set (resolved ?st')"
    then obtain k where "messageHandlers st k = Some p" and c: "concerns JSON_parse k (ev_message data)"
      using onmessage_resolved_by r by blast
    with u have "k = rid" by blast
    with c assms(2) show False by simp
  qed
  have c4: "handlers_known ?st'"
    using handlers_known_step [OF k, of JSON_parse "ev_message data"] by (simp add: client_step_def)
  show ?thesis unfolding pending_def using c1 c2 c3 c4 by blast
qed

lemma pending_callTool:
  assumes "pending rid p st" and "r' \<noteq> rid"
  shows "pending rid p (snd (wsClient_callTool r' s t a st))"
proof -
  let ?st' = "snd (wsClient_callTool r' s t a st)"
  have h: "messageHandlers st rid = Some p"
    and u: "\<forall>k. messageHandlers st k = Some p \<longrightarrow> k = rid"
    and r: "p \<notin> fst ` set (resolved st)"
    and k: "handlers_known st"
    using assms(1) unfolding pending_def by blast+
  have lt: "p < next_promise st"
    using k h unfolding handlers_known_def by blast
  have m: "messageHandlers ?st' = (messageHandlers st)(r' \<mapsto> next_promise st)"
    and rs: "resolved ?st' = resolved st"
    by (simp_all add: wsClient_callTool_def)
  have c1: "messageHandlers ?st' rid = Some p"
    using h assms(2) by (simp add: m)
  have c2: "\<forall>k. messageHandlers ?st' k = Some p \<longrightarrow> k = rid"
  proof (intro allI impI)
    fix k assume "messageHandlers ?st' k = Some p"
    then have "messageHandlers st k = Some p"
      using lt by (simp add: m split: if_splits)
    with u show "k = rid" by blast
  qed
  have c3: "p \<notin> fst ` set (resolved ?st')"
    using r by (simp add: rs)
  have c4: "handlers_known ?st'"
    using handlers_known_step [OF k, of "\<lambda>s. Inr JNull" "ev_callTool r' s t a"]
    by (simp add: client_step_def)
  show ?thesis unfolding pending_def using c1 c2 c3 c4 by blast
qed

lemma pending_same_fields:
  assumes "pending rid p st"
    and "messageHandlers st' = messageHandlers st"
    and "resolved st' = resolved st"
    and "next_promise st' = next_promise st"
  shows "pending rid p st'"
  using assms by (simp add: pending_def handlers_known_def)

lemma pending_step:
  assumes "pending rid p st" and "\<not> concerns JSON_parse rid ev"
  shows "pending rid p (client_step JSON_parse st ev)"
proof (cases ev)
  case ev_open
  show ?thesis
    by (rule pending_same_fields [OF assms(1)]) (simp_all add: ev_open client_step_def onopen_def)
next
  case (ev_message data)
  with assms show ?thesis by (simp add: client_step_def pending_onmessage)
next
  case ev_close
  show ?thesis
    by (rule pending_same_fields [OF assms(1)]) (simp_all add: ev_close client_step_def onclose_def)
next
  case ev_error
  with assms(1) show ?thesis by (simp add: client_step_def)
next
  case (ev_onToolsUpdate cb)
  show ?thesis
    by (rule pending_same_fields [OF assms(1)])
       (simp_all add: ev_onToolsUpdate client_step_def onToolsUpdate_def)
next
  case (ev_callTool r' s t a)
  with assms(2) have "r' \<noteq> rid" by (simp add: concerns_def)
  with assms(1) show ?thesis by (simp add: ev_callTool client_step_def pending_callTool)
qed


lemma handlers_known_run:
  "handlers_known st \<Longrightarrow> handlers_known (client_run JSON_parse st evs)"
  unfolding client_run_def
proof (induction evs arbitrary: st)
  case Nil
  then show ?case by simp
next
  case (Cons ev evs)
  have "handlers_known (client_step JSON_parse st ev)"
    using Cons.prems by (rule handlers_known_step)
  then have "handlers_known (foldl (client_step JSON_parse) (client_step JSON_parse st ev) evs)"
    by (rule Cons.IH)
  then show ?case by simp
qed

lemma pending_run:
  "pending rid p st \<Longrightarrow> list_all (\<lambda>ev. \<not> concerns JSON_parse rid ev) evs
   \<Longrightarrow> pending rid p (client_run JSON_parse st evs)"
  unfolding client_run_def
proof (induction evs arbitrary: st)
  case Nil
  then show ?case by simp
next
  case (Cons ev evs)
  from Cons.prems(2) have nc: "\<not> concerns JSON_parse rid ev"
    and rest: "list_all (\<lambda>ev. \<not> concerns JSON_parse rid ev) evs" by simp_all
  have "pending rid p (client_step JSON_parse st ev)"
    using Cons.prems(1) nc by (rule pending_step)
  then have "pending rid p (foldl (client_step JSON_parse) (client_step JSON_parse st ev) evs)"
    using rest by (rule Cons.IH)
  then show ?case by simp
qed

lemma callTool_pending:
  assumes "handlers_known st0" and "wsClient_callTool rid srv toolName args st0 = (p, st1)"
  shows "pending rid p st1"
proof -
  have "p = fst (wsClient_callTool rid srv toolName args st0)" by (simp add: assms(2))
  then have p: "p = next_promise st0" by (simp add: wsClient_callTool_def)
  have st1: "st1 = snd (wsClient_callTool rid srv toolName args st0)" by (simp add: assms(2))
  have m: "messageHandlers st1 = (messageHandlers st0)(rid \<mapsto> p)"
    and rs: "resolved st1 = resolved st0"
    by (simp_all add: st1 p wsClient_callTool_def)
  have a: "h < next_promise st0" if "messageHandlers st0 k = Some h" for k h
    using assms(1) that unfolding handlers_known_def by blast
  have b: "q < next_promise st0" if "q \<in> fst ` set (resolved st0)" for q
    using assms(1) that unfolding handlers_known_def by blast
  have c1: "messageHandlers st1 rid = Some p" by (simp add: m)
  have c2: "\<forall>k. messageHandlers st1 k = Some p \<longrightarrow> k = rid"
  proof (intro allI impI)
    fix k assume k: "messageHandlers st1 k = Some p"
    show "k = rid"
    proof (rule ccontr)
      assume "k \<noteq> rid"
      with k have "messageHandlers st0 k = Some p" by (simp add: m)
      then have "p < next_promise st0" by (rule a)
      then show False by (simp add: p)
    qed
  qed
  have c3: "p \<notin> fst ` set (resolved st1)"
  proof
    assume "p \<in> fst ` set (resolved st1)"
    then have "p \<in> fst ` set (resolved st0)" by (simp only: rs)
    then have "p < next_promise st0" by (rule b)
    then show False by (simp add: p)
  qed
  have c4: "handlers_known st1"
  proof -
    have "handlers_known (client_step (\<lambda>s. Inr JNull) st0 (ev_callTool rid srv toolName args))"
      using assms(1) by (rule handlers_known_step)
    then show ?thesis by (simp add: client_step_def st1)
  qed
  show ?thesis unfolding pending_def using c1 c2 c3 c4 by blast
qed

lemma error_message_effect:
  assumes "JSON_parse data = Inr msg"
    and "js_get (Some msg) ''type'' = Inr (Some (JStr ''error''))"
  shows "onmessage JSON_parse data st =
           (None, st\<lparr>console_errors := console_errors st @ [js_get_opt (Some msg) ''error'']\<rparr>)"
  by (simp add: onmessage_def assms)

lemma error_message_not_concerned:
  assumes "JSON_parse data = Inr msg"
    and "js_get (Some msg) ''type'' = Inr (Some (JStr ''error''))"
  shows "\<not> concerns JSON_parse rid (ev_message data)"
proof -
  have "js_get_opt (Some msg) ''type'' = Some (JStr ''error'')"
    using assms(2) by (rule js_get_Inr)
  then show ?thesis by (simp add: concerns_def assms(1))
qed

text \<open>
  Claim C9. A message of type \<open>error\<close> changes nothing in the client but the console: the
  handler table and the resolved promises stay as they were. Hence, for a call made with
  request id \<open>rid\<close> on promise \<open>p\<close> and answered by an error frame, after that frame and
  any later events that do not concern \<open>rid\<close> (no \<open>tool_response\<close> for it, no other call
  drawing the same id), the table still maps \<open>rid\<close> to \<open>p\<close> and \<open>p\<close> has not been resolved.
\<close>

theorem error_frame_never_settles_call:
  assumes "JSON_parse data = Inr msg"
    and "js_get (Some msg) ''type'' = Inr (Some (JStr ''error''))"
    and "wsClient_callTool rid srv toolName args (client_run JSON_parse client_init before) = (p, st1)"
    and "list_all (\<lambda>ev. \<not> concerns JSON_parse rid ev) later"
  shows "onmessage JSON_parse data st =
           (None, st\<lparr>console_errors := console_errors st @ [js_get_opt (Some msg) ''error'']\<rparr>)
         \<and> messageHandlers (client_run JSON_parse st1 (ev_message data # later)) rid = Some p
         \<and> p \<notin> fst ` set (resolved (client_run JSON_parse st1 (ev_message data # later)))"
proof -
  have "handlers_known (client_run JSON_parse client_init before)"
    using handlers_known_init by (rule handlers_known_run)
  then have "pending rid p st1" using assms(3) by (rule callTool_pending)
  moreover have "list_all (\<lambda>ev. \<not> concerns JSON_parse rid ev) (ev_message data # later)"
    using assms(4) error_message_not_concerned [of JSON_parse data msg rid] assms(1,2) by simp
  ultimately have "pending rid p (client_run JSON_parse st1 (ev_message data # later))"
    by (rule pending_run)
  then have "messageHandlers (client_run JSON_parse st1 (ev_message data # later)) rid = Some p"
    and "p \<notin> fst ` set (resolved (client_run JSON_parse st1 (ev_message data # later)))"
    unfolding pending_def by blast+
  moreover have "onmessage JSON_parse data st =
           (None, st\<lparr>console_errors := console_errors st @ [js_get_opt (Some msg) ''error'']\<rparr>)"
    using error_message_effect [of JSON_parse data msg st] assms(1,2) by blast
  ultimately show ?thesis by blast
qed


theorem error_frame_never_settles_call_witness:
  "messageHandlers
     (client_run ex_client_parse
        (snd (wsClient_callTool ''r1'' ''a'' ''read_file'' (Some (JObj []))
                (client_run ex_client_parse client_init [ev_open])))
        [ev_message ''{\"type\":\"error\",\"requestId\":\"r1\",\"error\":\"Tool execution failed: boom\"}'',
         ev_message ''{\"type\":\"tools_list\",\"tools\":[]}'', ev_close]) ''r1'' = Some 0
   \<and> 0 \<notin> fst ` set (resolved
     (client_run ex_client_parse
        (snd (wsClient_callTool ''r1'' ''a'' ''read_file'' (Some (JObj []))
                (client_run ex_client_parse client_init [ev_open])))
        [ev_message ''{\"type\":\"error\",\"requestId\":\"r1\",\"error\":\"Tool execution failed: boom\"}'',
         ev_message ''{\"type\":\"tools_list\",\"tools\":[]}'', ev_close]))"
proof -
  let ?E = "''{\"type\":\"error\",\"requestId\":\"r1\",\"error\":\"Tool execution failed: boom\"}''"
  let ?m = "JObj [(''type'', JStr ''error''), (''requestId'', JStr ''r1''),
                  (''error'', JStr ''Tool execution failed: boom'')]"
  let ?st0 = "client_run ex_client_parse client_init [ev_open]"
  have a: "ex_client_parse ?E = Inr ?m" by (simp add: ex_client_parse_def)
  have b: "js_get (Some ?m) ''type'' = Inr (Some (JStr ''error''))" by simp
  have c: "wsClient_callTool ''r1'' ''a'' ''read_file'' (Some (JObj [])) ?st0
             = (0, snd (wsClient_callTool ''r1'' ''a'' ''read_file'' (Some (JObj [])) ?st0))"
    by (simp add: wsClient_callTool_def client_run_def client_step_def onopen_def client_init_def)
  have d: "list_all (\<lambda>ev. \<not> concerns ex_client_parse ''r1'' ev)
             [ev_message ''{\"type\":\"tools_list\",\"tools\":[]}'', ev_close]"
    by (simp add: concerns_def ex_client_parse_def)
  show ?thesis
    using error_frame_never_settles_call [OF a b c d] by simp
qed

end
